theory Spec2Isabelle
  imports Main "HOL-Library.AList" "HOL-Library.Sublist"
begin

section \<open>Python values and string formatting\<close>

text \<open>
  The tools of \<^verbatim>\<open>mcp_server.py\<close> exchange untyped Python values. The fragment that the
  code produces and inspects is modelled by one datatype; a Python \<^verbatim>\<open>str\<close> is a
  \<^typ>\<open>string\<close> holding its UTF-8 bytes, a \<^verbatim>\<open>dict\<close> is an association list in
  insertion order.
\<close>

datatype pyval =
    PNone
  | PBool bool
  | PInt int
  | PStr string
  | PList "pyval list"
  | PDict "(string \<times> pyval) list"

type_synonym pydict = "(string \<times> pyval) list"

text \<open>\<^verbatim>\<open>str(n)\<close> for an integer: decimal digits, most significant first, a leading
  minus sign for a negative number.\<close>

definition digit_char :: "nat \<Rightarrow> char" where
  "digit_char d = ''0123456789'' ! d"

function str_nat :: "nat \<Rightarrow> string" where
  "str_nat n = (if n < 10 then [digit_char n] else str_nat (n div 10) @ [digit_char (n mod 10)])"
  by pat_completeness auto
termination
  by (relation "measure (\<lambda>n. n)") auto

declare str_nat.simps [simp del]

definition str_int :: "int \<Rightarrow> string" where
  "str_int i = (if i < 0 then ''-'' @ str_nat (nat (- i)) else str_nat (nat i))"

section \<open>TaskManager\<close>

text \<open>
  A task record is the dictionary that \<^verbatim>\<open>create_task\<close> stores: nine fixed keys. The
  status is a Python string (the code has no enumeration), the result is any value
  (\<^const>\<open>PNone\<close> for \<^verbatim>\<open>None\<close>), the error is a string or \<^verbatim>\<open>None\<close>.
\<close>

record task =
  id :: string
  type :: string
  status :: string
  params :: pydict
  created_at :: string
  updated_at :: string
  result :: pyval
  error :: "string option"
  progress :: int

text \<open>\<^verbatim>\<open>self.tasks\<close>: a dict from task id to record, in insertion order.\<close>

type_synonym registry = "(string \<times> task) list"

text \<open>
  \<^verbatim>\<open>create_task\<close> reads the clock three times: \<open>now_ts\<close> is
  \<^verbatim>\<open>int(datetime.now().timestamp())\<close>, \<open>now_created\<close> and \<open>now_updated\<close> are the two
  \<^verbatim>\<open>datetime.now().isoformat()\<close> strings. The function returns the id and the registry
  after the assignment \<^verbatim>\<open>self.tasks[task_id] = {...}\<close>.
\<close>

definition create_task ::
  "registry \<Rightarrow> string \<Rightarrow> pydict \<Rightarrow> int \<Rightarrow> string \<Rightarrow> string \<Rightarrow> string \<times> registry" where
  "create_task tasks task_type ps now_ts now_created now_updated =
     (let task_id = ''task_'' @ str_nat (length tasks + 1) @ ''_'' @ str_int now_ts
      in (task_id,
          AList.update task_id
            \<lparr>id = task_id, type = task_type, status = ''pending'', params = ps,
             created_at = now_created, updated_at = now_updated,
             result = PNone, error = None, progress = 0\<rparr> tasks))"

definition get_task :: "registry \<Rightarrow> string \<Rightarrow> task option" where
  "get_task tasks task_id = map_of tasks task_id"

definition update_task ::
  "registry \<Rightarrow> string \<Rightarrow> string \<Rightarrow> pyval \<Rightarrow> string option \<Rightarrow> string \<Rightarrow> registry" where
  "update_task tasks task_id st res err now =
     (if map_of tasks task_id \<noteq> None
      then AList.map_entry task_id
             (\<lambda>t. t\<lparr>status := st, updated_at := now, result := res, error := err,
                    progress := (if st = ''completed'' then 100
                                 else if st = ''running'' then 50 else 0)\<rparr>) tasks
      else tasks)"

text \<open>A call of one of the two mutating methods, with its arguments and clock readings.\<close>

datatype tm_op =
    Create_task string pydict int string string
  | Update_task string string pyval "string option" string

fun tm_step :: "registry \<Rightarrow> tm_op \<Rightarrow> registry" where
  "tm_step tasks (Create_task ty ps ts c u) = snd (create_task tasks ty ps ts c u)"
| "tm_step tasks (Update_task tid st res err now) = update_task tasks tid st res err now"

text \<open>The states a system passes through: the start state, then the state after each event.\<close>

fun trace :: "('s \<Rightarrow> 'e \<Rightarrow> 's) \<Rightarrow> 's \<Rightarrow> 'e list \<Rightarrow> 's list" where
  "trace step s [] = [s]"
| "trace step s (e # es) = s # trace step (step s e) es"

text \<open>\<^verbatim>\<open>TaskManager()\<close> starts with the empty dict.\<close>

definition tm_run :: "tm_op list \<Rightarrow> registry" where
  "tm_run ops = foldl tm_step [] ops"


section \<open>Polling a task\<close>

text \<open>The message constants are the UTF-8 bytes of the source's Chinese literals.\<close>

definition msg_task_not_found :: string where
  "msg_task_not_found = [CHR 0xE6, CHR 0x9C, CHR 0xAA, CHR 0xE6, CHR 0x89, CHR 0xBE,
     CHR 0xE5, CHR 0x88, CHR 0xB0, CHR 0xE4, CHR 0xBB, CHR 0xBB, CHR 0xE5, CHR 0x8A,
     CHR 0xA1] @ '': ''"

definition msg_status_ok :: string where
  "msg_status_ok = [CHR 0xE4, CHR 0xBB, CHR 0xBB, CHR 0xE5, CHR 0x8A, CHR 0xA1, CHR 0xE7,
     CHR 0x8A, CHR 0xB6, CHR 0xE6, CHR 0x80, CHR 0x81, CHR 0xE8, CHR 0x8E, CHR 0xB7,
     CHR 0xE5, CHR 0x8F, CHR 0x96, CHR 0xE6, CHR 0x88, CHR 0x90, CHR 0xE5, CHR 0x8A,
     CHR 0x9F]"

text \<open>
  \<^verbatim>\<open>get_task_status\<close>: a lookup, then a response dict. The task object of the response has
  the seven keys the source lists. \<^verbatim>\<open>not task\<close> holds for \<^verbatim>\<open>None\<close> only, a stored record
  being a non-empty dict; nothing in the body raises for a string argument, so the
  \<^verbatim>\<open>except\<close> branch has no counterpart here.
\<close>

definition error_value :: "string option \<Rightarrow> pyval" where
  "error_value e = (case e of None \<Rightarrow> PNone | Some m \<Rightarrow> PStr m)"

definition get_task_status :: "registry \<Rightarrow> string \<Rightarrow> pydict" where
  "get_task_status tasks task_id =
     (case get_task tasks task_id of
        None \<Rightarrow>
          [(''success'', PBool False),
           (''message'', PStr (msg_task_not_found @ task_id)),
           (''task'', PNone)]
      | Some task \<Rightarrow>
          [(''success'', PBool True),
           (''message'', PStr msg_status_ok),
           (''task'', PDict
              [(''id'', PStr (id task)),
               (''type'', PStr (type task)),
               (''status'', PStr (status task)),
               (''progress'', PInt (progress task)),
               (''created_at'', PStr (created_at task)),
               (''updated_at'', PStr (updated_at task)),
               (''error'', error_value (error task))])])"

text \<open>Reading a response: \<^verbatim>\<open>resp[k1][k2]...\<close>, \<open>None\<close> where a key is missing.\<close>

fun lookup_path :: "string list \<Rightarrow> pyval \<Rightarrow> pyval option" where
  "lookup_path [] v = Some v"
| "lookup_path (k # ks) (PDict d) =
     (case map_of d k of None \<Rightarrow> None | Some v \<Rightarrow> lookup_path ks v)"
| "lookup_path (k # ks) _ = None"

section \<open>The error stream\<close>

text \<open>
  \<^verbatim>\<open>json.dumps(v, ensure_ascii=False)\<close> with the default separators, on the values of
  \<^typ>\<open>pyval\<close>. A string is quoted; the backslash, the double quote and the control
  characters below 0x20 are escaped, every other byte (so all of a non-ASCII character's
  UTF-8 bytes) is copied.
\<close>

definition hex_digit :: "nat \<Rightarrow> char" where
  "hex_digit d = ''0123456789abcdef'' ! d"

definition json_escape :: "char \<Rightarrow> string" where
  "json_escape c =
     (if c = CHR 0x5C then [CHR 0x5C, CHR 0x5C]
      else if c = CHR 0x22 then [CHR 0x5C, CHR 0x22]
      else if c = CHR 0x08 then [CHR 0x5C, CHR ''b'']
      else if c = CHR 0x0C then [CHR 0x5C, CHR ''f'']
      else if c = CHR 0x0A then [CHR 0x5C, CHR ''n'']
      else if c = CHR 0x0D then [CHR 0x5C, CHR ''r'']
      else if c = CHR 0x09 then [CHR 0x5C, CHR ''t'']
      else if (of_char c :: nat) < 32
        then [CHR 0x5C] @ ''u00'' @ [hex_digit (of_char c div 16), hex_digit (of_char c mod 16)]
      else [c])"

definition json_string :: "string \<Rightarrow> string" where
  "json_string s = [CHR 0x22] @ concat (map json_escape s) @ [CHR 0x22]"

fun join :: "string \<Rightarrow> string list \<Rightarrow> string" where
  "join sep [] = []"
| "join sep [x] = x"
| "join sep (x # y # ys) = x @ sep @ join sep (y # ys)"

fun json_dumps :: "pyval \<Rightarrow> string" where
  "json_dumps PNone = ''null''"
| "json_dumps (PBool b) = (if b then ''true'' else ''false'')"
| "json_dumps (PInt i) = str_int i"
| "json_dumps (PStr s) = json_string s"
| "json_dumps (PList xs) = ''['' @ join '', '' (map json_dumps xs) @ '']''"
| "json_dumps (PDict d) =
     ''{'' @ join '', '' (map (\<lambda>kv. json_string (fst kv) @ '': '' @ json_dumps (snd kv)) d) @ ''}''"

definition msg_operation_failed :: string where
  "msg_operation_failed = [CHR 0xE5, CHR 0xBD, CHR 0x93, CHR 0xE5, CHR 0x89, CHR 0x8D,
     CHR 0xE6, CHR 0x93, CHR 0x8D, CHR 0xE4, CHR 0xBD, CHR 0x9C, CHR 0xE6, CHR 0x97,
     CHR 0xA0, CHR 0xE6, CHR 0xB3, CHR 0x95, CHR 0xE5, CHR 0xAE, CHR 0x8C, CHR 0xE6,
     CHR 0x88, CHR 0x90, CHR 0xEF, CHR 0xBC, CHR 0x8C, CHR 0xE8, CHR 0xAF, CHR 0xB7,
     CHR 0xE7, CHR 0xA8, CHR 0x8D, CHR 0xE5, CHR 0x90, CHR 0x8E, CHR 0xE5, CHR 0x86,
     CHR 0x8D, CHR 0xE8, CHR 0xAF, CHR 0x95]"

text \<open>
  \<^verbatim>\<open>StreamAPIResponse.error_stream_gen\<close>: the generator yields the elements of \<^verbatim>\<open>chunks\<close> in
  order and ends; its output is that list.
\<close>

definition error_stream_gen :: "string list" where
  "error_stream_gen =
     (let error_message =
            PDict [(''choices'',
              PList [PDict [(''delta'',
                PDict [(''role'', PStr ''assistant''), (''content'', PStr msg_operation_failed)])]])];
          chunks = [''data: '' @ json_dumps error_message @ [CHR 0x0A, CHR 0x0A],
                    ''data: [DONE]'' @ [CHR 0x0A, CHR 0x0A]]
      in chunks)"

section \<open>Synchronous tools\<close>

text \<open>
  What a call can do besides returning. \<open>PyException m\<close> is an instance of \<^verbatim>\<open>Exception\<close> (or
  of a subclass) whose \<^verbatim>\<open>str()\<close> is \<open>m\<close>; \<open>PyBaseException c\<close> is an exception of a class
  \<open>c\<close> that derives from \<^verbatim>\<open>BaseException\<close> and not from \<^verbatim>\<open>Exception\<close> (\<^verbatim>\<open>SystemExit\<close>,
  \<^verbatim>\<open>KeyboardInterrupt\<close>, \<^verbatim>\<open>GeneratorExit\<close>, \<^verbatim>\<open>asyncio.CancelledError\<close>).
\<close>

datatype exn = PyException string | PyBaseException string

text \<open>The behaviour of a collaborator on one call.\<close>

datatype outcome = Returns pyval | Raises exn

text \<open>Truth value testing, as \<^verbatim>\<open>not v\<close> and \<^verbatim>\<open>if v\<close> do it.\<close>

fun truthy :: "pyval \<Rightarrow> bool" where
  "truthy PNone = False"
| "truthy (PBool b) = b"
| "truthy (PInt i) = (i \<noteq> 0)"
| "truthy (PStr s) = (s \<noteq> [])"
| "truthy (PList xs) = (xs \<noteq> [])"
| "truthy (PDict d) = (d \<noteq> [])"

fun type_name :: "pyval \<Rightarrow> string" where
  "type_name PNone = ''NoneType''"
| "type_name (PBool b) = ''bool''"
| "type_name (PInt i) = ''int''"
| "type_name (PStr s) = ''str''"
| "type_name (PList xs) = ''list''"
| "type_name (PDict d) = ''dict''"

definition quoted :: "string \<Rightarrow> string" where
  "quoted s = [CHR 0x27] @ s @ [CHR 0x27]"

text \<open>The characters of a string: each is a lead byte and the continuation bytes
  (0x80 to 0xBF) after it.\<close>

definition is_continuation :: "char \<Rightarrow> bool" where
  "is_continuation c \<longleftrightarrow> 128 \<le> (of_char c :: nat) \<and> (of_char c :: nat) < 192"

function utf8_chars :: "string \<Rightarrow> string list" where
  "utf8_chars [] = []"
| "utf8_chars (c # cs) =
     (c # takeWhile is_continuation cs) # utf8_chars (dropWhile is_continuation cs)"
  by pat_completeness auto
termination
  by (relation "measure length") (auto simp: length_dropWhile_le less_Suc_eq_le)

text \<open>\<^verbatim>\<open>for x in v\<close>: the elements of a list, the characters of a string, the keys of a
  dict; \<^verbatim>\<open>TypeError\<close> on a value that is not iterable.\<close>

fun py_iter :: "pyval \<Rightarrow> exn + pyval list" where
  "py_iter (PList xs) = Inr xs"
| "py_iter (PStr s) = Inr (map PStr (utf8_chars s))"
| "py_iter (PDict d) = Inr (map (\<lambda>kv. PStr (fst kv)) d)"
| "py_iter v = Inl (PyException (quoted (type_name v) @ '' object is not iterable''))"

text \<open>\<^verbatim>\<open>v.get(k, default)\<close>: a dict method; on another value the attribute lookup raises
  \<^verbatim>\<open>AttributeError\<close>.\<close>

fun py_get :: "pyval \<Rightarrow> string \<Rightarrow> pyval \<Rightarrow> exn + pyval" where
  "py_get (PDict d) k dflt = Inr (case map_of d k of None \<Rightarrow> dflt | Some v \<Rightarrow> v)"
| "py_get v k dflt =
     Inl (PyException (quoted (type_name v) @ '' object has no attribute '' @ quoted ''get''))"

text \<open>\<^verbatim>\<open>len(v)\<close>; \<^verbatim>\<open>TypeError\<close> on a value without length.\<close>

fun py_len :: "pyval \<Rightarrow> exn + nat" where
  "py_len (PStr s) = Inr (length (utf8_chars s))"
| "py_len (PList xs) = Inr (length xs)"
| "py_len (PDict d) = Inr (length d)"
| "py_len v = Inl (PyException (''object of type '' @ quoted (type_name v) @ '' has no len()''))"

text \<open>
  A handler \<^verbatim>\<open>except Exception as e: return {...}\<close>: an \<^verbatim>\<open>Exception\<close> becomes the response
  built from \<^verbatim>\<open>str(e)\<close>, any other exception leaves the function (\<open>Inl\<close>).
\<close>

definition except_Exception :: "(string \<Rightarrow> pydict) \<Rightarrow> exn \<Rightarrow> exn + pydict" where
  "except_Exception handler e =
     (case e of PyException m \<Rightarrow> Inr (handler m) | PyBaseException c \<Rightarrow> Inl e)"

definition msg_no_papers :: string where
  "msg_no_papers = [CHR 0xE6, CHR 0x9C, CHR 0xAA, CHR 0xE6, CHR 0x89, CHR 0xBE, CHR 0xE5,
     CHR 0x88, CHR 0xB0, CHR 0xE7, CHR 0x9B, CHR 0xB8, CHR 0xE5, CHR 0x85, CHR 0xB3,
     CHR 0xE8, CHR 0xAE, CHR 0xBA, CHR 0xE6, CHR 0x96, CHR 0x87]"

definition msg_papers_found_pre :: string where
  "msg_papers_found_pre = [CHR 0xE6, CHR 0x88, CHR 0x90, CHR 0xE5, CHR 0x8A, CHR 0x9F,
     CHR 0xE6, CHR 0x90, CHR 0x9C, CHR 0xE7, CHR 0xB4, CHR 0xA2, CHR 0xE5, CHR 0x88,
     CHR 0xB0] @ '' ''"

definition msg_papers_found_post :: string where
  "msg_papers_found_post = '' '' @ [CHR 0xE7, CHR 0xAF, CHR 0x87, CHR 0xE8, CHR 0xAE,
     CHR 0xBA, CHR 0xE6, CHR 0x96, CHR 0x87]"

definition msg_search_error :: string where
  "msg_search_error = [CHR 0xE6, CHR 0x90, CHR 0x9C, CHR 0xE7, CHR 0xB4, CHR 0xA2, CHR 0xE8,
     CHR 0xAE, CHR 0xBA, CHR 0xE6, CHR 0x96, CHR 0x87, CHR 0xE6, CHR 0x97, CHR 0xB6,
     CHR 0xE5, CHR 0x87, CHR 0xBA, CHR 0xE9, CHR 0x94, CHR 0x99] @ '': ''"

text \<open>The body of the loop of \<^verbatim>\<open>search_papers\<close>: six \<^verbatim>\<open>paper.get\<close> calls, the first of
  which raises when \<^verbatim>\<open>paper\<close> is not a dict.\<close>

fun format_paper :: "pyval \<Rightarrow> exn + pyval" where
  "format_paper (PDict d) =
     Inr (PDict
       [(''title'', case map_of d ''title'' of None \<Rightarrow> PStr [] | Some v \<Rightarrow> v),
        (''authors'', case map_of d ''authors'' of None \<Rightarrow> PList [] | Some v \<Rightarrow> v),
        (''abstract'', case map_of d ''abstract'' of None \<Rightarrow> PStr [] | Some v \<Rightarrow> v),
        (''published'', case map_of d ''published'' of None \<Rightarrow> PStr [] | Some v \<Rightarrow> v),
        (''url'', case map_of d ''url'' of None \<Rightarrow> PStr [] | Some v \<Rightarrow> v),
        (''pdf_url'', case map_of d ''pdf_url'' of None \<Rightarrow> PStr [] | Some v \<Rightarrow> v)])"
| "format_paper paper = py_get paper ''title'' (PStr [])"

text \<open>The loop: it stops at the first element that raises.\<close>

fun format_all :: "pyval list \<Rightarrow> exn + pyval list" where
  "format_all [] = Inr []"
| "format_all (paper # papers) =
     (case format_paper paper of
        Inl e \<Rightarrow> Inl e
      | Inr formatted_paper \<Rightarrow>
          (case format_all papers of
             Inl e \<Rightarrow> Inl e
           | Inr formatted_papers \<Rightarrow> Inr (formatted_paper # formatted_papers)))"

text \<open>
  The tools take their collaborator as a parameter: \<open>search_paper\<close>,
  \<open>extract_technical_entities\<close>, \<open>review_mechanism\<close> and \<open>paper_compression\<close> are imported
  from modules outside this model. The result is \<open>Inr\<close> of the returned dict, or \<open>Inl\<close> of
  the exception that leaves the tool. Logging does not take part in the result.
\<close>

definition search_papers :: "(string \<Rightarrow> int \<Rightarrow> outcome) \<Rightarrow> string \<Rightarrow> int \<Rightarrow> exn + pydict" where
  "search_papers search_paper keyword limit =
     (let handler = except_Exception (\<lambda>m.
            [(''success'', PBool False),
             (''message'', PStr (msg_search_error @ m)),
             (''papers'', PList [])])
      in case search_paper keyword limit of
           Raises e \<Rightarrow> handler e
         | Returns papers \<Rightarrow>
             if \<not> truthy papers
             then Inr [(''success'', PBool False),
                       (''message'', PStr msg_no_papers),
                       (''papers'', PList [])]
             else (case py_iter papers of
                     Inl e \<Rightarrow> handler e
                   | Inr elements \<Rightarrow>
                       (case format_all elements of
                          Inl e \<Rightarrow> handler e
                        | Inr formatted_papers \<Rightarrow>
                            Inr [(''success'', PBool True),
                                 (''message'', PStr (msg_papers_found_pre
                                    @ str_nat (length formatted_papers) @ msg_papers_found_post)),
                                 (''papers'', PList formatted_papers)])))"

definition msg_no_keywords :: string where
  "msg_no_keywords = [CHR 0xE6, CHR 0x9C, CHR 0xAA, CHR 0xE8, CHR 0x83, CHR 0xBD, CHR 0xE6,
     CHR 0x8F, CHR 0x90, CHR 0xE5, CHR 0x8F, CHR 0x96, CHR 0xE5, CHR 0x88, CHR 0xB0,
     CHR 0xE5, CHR 0x85, CHR 0xB3, CHR 0xE9, CHR 0x94, CHR 0xAE, CHR 0xE8, CHR 0xAF,
     CHR 0x8D]"

definition msg_keywords_found_pre :: string where
  "msg_keywords_found_pre = [CHR 0xE6, CHR 0x88, CHR 0x90, CHR 0xE5, CHR 0x8A, CHR 0x9F,
     CHR 0xE6, CHR 0x8F, CHR 0x90, CHR 0xE5, CHR 0x8F, CHR 0x96, CHR 0xE5, CHR 0x88,
     CHR 0xB0] @ '' ''"

definition msg_keywords_found_post :: string where
  "msg_keywords_found_post = '' '' @ [CHR 0xE4, CHR 0xB8, CHR 0xAA, CHR 0xE5, CHR 0x85,
     CHR 0xB3, CHR 0xE9, CHR 0x94, CHR 0xAE, CHR 0xE8, CHR 0xAF, CHR 0x8D]"

definition msg_extract_error :: string where
  "msg_extract_error = [CHR 0xE6, CHR 0x8F, CHR 0x90, CHR 0xE5, CHR 0x8F, CHR 0x96,
     CHR 0xE5, CHR 0x85, CHR 0xB3, CHR 0xE9, CHR 0x94, CHR 0xAE, CHR 0xE8, CHR 0xAF,
     CHR 0x8D, CHR 0xE6, CHR 0x97, CHR 0xB6, CHR 0xE5, CHR 0x87, CHR 0xBA, CHR 0xE9,
     CHR 0x94, CHR 0x99] @ '': ''"

definition extract_keywords ::
  "(string \<Rightarrow> string \<Rightarrow> outcome) \<Rightarrow> string \<Rightarrow> string \<Rightarrow> exn + pydict" where
  "extract_keywords extract_technical_entities text split_section =
     (let handler = except_Exception (\<lambda>m.
            [(''success'', PBool False),
             (''message'', PStr (msg_extract_error @ m)),
             (''keywords'', PList [])])
      in case extract_technical_entities text split_section of
           Raises e \<Rightarrow> handler e
         | Returns keywords \<Rightarrow>
             if \<not> truthy keywords
             then Inr [(''success'', PBool False),
                       (''message'', PStr msg_no_keywords),
                       (''keywords'', PList [])]
             else (case py_len keywords of
                     Inl e \<Rightarrow> handler e
                   | Inr n \<Rightarrow>
                       Inr [(''success'', PBool True),
                            (''message'', PStr (msg_keywords_found_pre
                               @ str_nat n @ msg_keywords_found_post)),
                            (''keywords'', keywords)]))"

definition msg_review_failed :: string where
  "msg_review_failed = [CHR 0xE8, CHR 0xAF, CHR 0x84, CHR 0xE5, CHR 0xAE, CHR 0xA1,
     CHR 0xE5, CHR 0xA4, CHR 0xB1, CHR 0xE8, CHR 0xB4, CHR 0xA5]"

definition msg_review_done :: string where
  "msg_review_done = [CHR 0xE8, CHR 0xAF, CHR 0x84, CHR 0xE5, CHR 0xAE, CHR 0xA1, CHR 0xE5,
     CHR 0xAE, CHR 0x8C, CHR 0xE6, CHR 0x88, CHR 0x90]"

definition msg_review_error :: string where
  "msg_review_error = [CHR 0xE8, CHR 0xAF, CHR 0x84, CHR 0xE5, CHR 0xAE, CHR 0xA1, CHR 0xE6,
     CHR 0x97, CHR 0xB6, CHR 0xE5, CHR 0x87, CHR 0xBA, CHR 0xE9, CHR 0x94, CHR 0x99] @
     '': ''"

definition review_research_idea ::
  "(string \<Rightarrow> string \<Rightarrow> outcome) \<Rightarrow> string \<Rightarrow> string \<Rightarrow> exn + pydict" where
  "review_research_idea review_mechanism topic draft =
     (let handler = except_Exception (\<lambda>m.
            [(''success'', PBool False),
             (''message'', PStr (msg_review_error @ m)),
             (''review'', PNone)])
      in case review_mechanism topic draft of
           Raises e \<Rightarrow> handler e
         | Returns review_result \<Rightarrow>
             if \<not> truthy review_result
             then Inr [(''success'', PBool False),
                       (''message'', PStr msg_review_failed),
                       (''review'', PNone)]
             else Inr [(''success'', PBool True),
                       (''message'', PStr msg_review_done),
                       (''review'', review_result)])"

definition msg_compress_failed :: string where
  "msg_compress_failed = [CHR 0xE5, CHR 0x8E, CHR 0x8B, CHR 0xE7, CHR 0xBC, CHR 0xA9,
     CHR 0xE5, CHR 0xA4, CHR 0xB1, CHR 0xE8, CHR 0xB4, CHR 0xA5]"

definition msg_compress_done :: string where
  "msg_compress_done = [CHR 0xE5, CHR 0x8E, CHR 0x8B, CHR 0xE7, CHR 0xBC, CHR 0xA9,
     CHR 0xE5, CHR 0xAE, CHR 0x8C, CHR 0xE6, CHR 0x88, CHR 0x90]"

definition msg_compress_error :: string where
  "msg_compress_error = [CHR 0xE5, CHR 0x8E, CHR 0x8B, CHR 0xE7, CHR 0xBC, CHR 0xA9,
     CHR 0xE6, CHR 0x97, CHR 0xB6, CHR 0xE5, CHR 0x87, CHR 0xBA, CHR 0xE9, CHR 0x94,
     CHR 0x99] @ '': ''"

definition compress_paper_content ::
  "(string \<Rightarrow> string \<Rightarrow> string \<Rightarrow> outcome) \<Rightarrow> string \<Rightarrow> string \<Rightarrow> string \<Rightarrow> exn + pydict" where
  "compress_paper_content paper_compression title abstract content =
     (let handler = except_Exception (\<lambda>m.
            [(''success'', PBool False),
             (''message'', PStr (msg_compress_error @ m)),
             (''compressed_content'', PNone)])
      in case paper_compression title abstract content of
           Raises e \<Rightarrow> handler e
         | Returns compressed_result \<Rightarrow>
             if \<not> truthy compressed_result
             then Inr [(''success'', PBool False),
                       (''message'', PStr msg_compress_failed),
                       (''compressed_content'', PNone)]
             else Inr [(''success'', PBool True),
                       (''message'', PStr msg_compress_done),
                       (''compressed_content'', compressed_result)])"

text \<open>
  The two shapes of a tool's response: the keys \<^verbatim>\<open>success\<close>, \<^verbatim>\<open>message\<close> and the tool's
  data key, in this order; a failure carries the tool's default data.
\<close>

fun success_response :: "pydict \<Rightarrow> string \<Rightarrow> bool" where
  "success_response [(k1, PBool b), (k2, PStr m), (k3, v)] data_key \<longleftrightarrow>
     k1 = ''success'' \<and> b \<and> k2 = ''message'' \<and> k3 = data_key"
| "success_response d data_key \<longleftrightarrow> False"

fun failure_response :: "pydict \<Rightarrow> string \<Rightarrow> pyval \<Rightarrow> bool" where
  "failure_response [(k1, PBool b), (k2, PStr m), (k3, v)] data_key dflt \<longleftrightarrow>
     k1 = ''success'' \<and> \<not> b \<and> k2 = ''message'' \<and> k3 = data_key \<and> v = dflt"
| "failure_response d data_key dflt \<longleftrightarrow> False"

text \<open>A collaborator call that ends in an exception outside \<^verbatim>\<open>Exception\<close>.\<close>

fun raises_base_exception :: "outcome \<Rightarrow> bool" where
  "raises_base_exception (Raises (PyBaseException c)) \<longleftrightarrow> True"
| "raises_base_exception out \<longleftrightarrow> False"

fun is_dict :: "pyval \<Rightarrow> bool" where
  "is_dict (PDict d) \<longleftrightarrow> True"
| "is_dict v \<longleftrightarrow> False"

text \<open>Collaborators for the examples: one that exits the interpreter, one that fails, one
  that finds nothing, one that finds a paper, and a compressor that returns text.\<close>

definition exiting_search :: "string \<Rightarrow> int \<Rightarrow> outcome" where
  "exiting_search keyword limit = Raises (PyBaseException ''SystemExit'')"

definition failing_search :: "string \<Rightarrow> int \<Rightarrow> outcome" where
  "failing_search keyword limit = Raises (PyException ''connection refused'')"

definition empty_search :: "string \<Rightarrow> int \<Rightarrow> outcome" where
  "empty_search keyword limit = Returns (PList [])"

definition one_paper_search :: "string \<Rightarrow> int \<Rightarrow> outcome" where
  "one_paper_search keyword limit =
     Returns (PList [PDict [(''title'', PStr ''Hawking radiation''), (''url'', PStr ''u'')]])"

definition echo_compression :: "string \<Rightarrow> string \<Rightarrow> string \<Rightarrow> outcome" where
  "echo_compression title abstract content = Returns (PStr (title @ abstract @ content))"

section \<open>The asynchronous tool and its background units\<close>

text \<open>
  The server's state: the global \<^verbatim>\<open>task_manager\<close> and the coroutines that
  \<^verbatim>\<open>asyncio.create_task\<close> has scheduled, each with the task id it was given and the point
  it has reached in \<^verbatim>\<open>_generate_research_idea_async\<close>: not yet started, suspended at the
  \<^verbatim>\<open>await\<close> (after \<^verbatim>\<open>update_task(task_id, "running")\<close>), or finished.
\<close>

datatype phase = Scheduled | Awaiting | Finished

record server =
  task_manager :: registry
  background :: "(string \<times> phase) list"

definition init_server :: server where
  "init_server = \<lparr>task_manager = [], background = []\<rparr>"

definition msg_task_started :: string where
  "msg_task_started = [CHR 0xE7, CHR 0xA0, CHR 0x94, CHR 0xE7, CHR 0xA9, CHR 0xB6, CHR 0xE6,
     CHR 0x83, CHR 0xB3, CHR 0xE6, CHR 0xB3, CHR 0x95, CHR 0xE7, CHR 0x94, CHR 0x9F,
     CHR 0xE6, CHR 0x88, CHR 0x90, CHR 0xE4, CHR 0xBB, CHR 0xBB, CHR 0xE5, CHR 0x8A,
     CHR 0xA1, CHR 0xE5, CHR 0xB7, CHR 0xB2, CHR 0xE5, CHR 0x90, CHR 0xAF, CHR 0xE5,
     CHR 0x8A, CHR 0xA8]"

definition msg_create_error :: string where
  "msg_create_error = [CHR 0xE5, CHR 0x88, CHR 0x9B, CHR 0xE5, CHR 0xBB, CHR 0xBA, CHR 0xE4,
     CHR 0xBB, CHR 0xBB, CHR 0xE5, CHR 0x8A, CHR 0xA1, CHR 0xE6, CHR 0x97, CHR 0xB6,
     CHR 0xE5, CHR 0x87, CHR 0xBA, CHR 0xE9, CHR 0x94, CHR 0x99] @ '': ''"

definition msg_idea_error :: string where
  "msg_idea_error = [CHR 0xE7, CHR 0x94, CHR 0x9F, CHR 0xE6, CHR 0x88, CHR 0x90, CHR 0xE7,
     CHR 0xA0, CHR 0x94, CHR 0xE7, CHR 0xA9, CHR 0xB6, CHR 0xE6, CHR 0x83, CHR 0xB3,
     CHR 0xE6, CHR 0xB3, CHR 0x95, CHR 0xE6, CHR 0x97, CHR 0xB6, CHR 0xE5, CHR 0x87,
     CHR 0xBA, CHR 0xE9, CHR 0x94, CHR 0x99] @ '': ''"

text \<open>
  \<^verbatim>\<open>generate_research_idea\<close>: \<^verbatim>\<open>create_task\<close>, then \<^verbatim>\<open>asyncio.create_task\<close>, which raises
  \<^verbatim>\<open>RuntimeError("no running event loop")\<close> when the calling thread runs no event loop; the
  tool's handler turns that into the failure response, and the task stays in the
  registry with no unit to advance it.
\<close>

definition generate_research_idea ::
  "server \<Rightarrow> string \<Rightarrow> int \<Rightarrow> int \<Rightarrow> string \<Rightarrow> string \<Rightarrow> bool \<Rightarrow> pydict \<times> server" where
  "generate_research_idea s keyword paper_count now_ts now_created now_updated loop_running =
     (let created = create_task (task_manager s) ''generate_research_idea''
                      [(''keyword'', PStr keyword), (''paper_count'', PInt paper_count)]
                      now_ts now_created now_updated;
          task_id = fst created
      in if loop_running
         then ([(''success'', PBool True),
                (''message'', PStr msg_task_started),
                (''task_id'', PStr task_id)],
               s\<lparr>task_manager := snd created,
                 background := background s @ [(task_id, Scheduled)]\<rparr>)
         else ([(''success'', PBool False),
                (''message'', PStr (msg_create_error @ ''no running event loop'')),
                (''task_id'', PNone)],
               s\<lparr>task_manager := snd created\<rparr>))"

text \<open>
  \<^verbatim>\<open>_generate_research_idea_async\<close>, first part: unit \<open>i\<close> starts and marks its task
  running. A unit that is not at its start does not take this step.
\<close>

definition unit_start :: "server \<Rightarrow> nat \<Rightarrow> string \<Rightarrow> server" where
  "unit_start s i now =
     (if i < length (background s) \<and> snd (background s ! i) = Scheduled
      then (let task_id = fst (background s ! i)
            in s\<lparr>task_manager := update_task (task_manager s) task_id ''running'' PNone None now,
                 background := (background s)[i := (task_id, Awaiting)]\<rparr>)
      else s)"

text \<open>
  Second part: the awaited \<^verbatim>\<open>astro_main\<close> call of unit \<open>i\<close> ends. A returned value is
  stored with status completed; an \<^verbatim>\<open>Exception\<close> is stored as the error message with
  status failed; an exception outside \<^verbatim>\<open>Exception\<close> passes the handler and ends the
  coroutine with no update.
\<close>

definition unit_finish :: "server \<Rightarrow> nat \<Rightarrow> outcome \<Rightarrow> string \<Rightarrow> server" where
  "unit_finish s i out now =
     (if i < length (background s) \<and> snd (background s ! i) = Awaiting
      then (let task_id = fst (background s ! i)
            in case out of
                 Returns res \<Rightarrow>
                   s\<lparr>task_manager :=
                       update_task (task_manager s) task_id ''completed'' res None now,
                     background := (background s)[i := (task_id, Finished)]\<rparr>
               | Raises (PyException m) \<Rightarrow>
                   s\<lparr>task_manager :=
                       update_task (task_manager s) task_id ''failed'' PNone
                         (Some (msg_idea_error @ m)) now,
                     background := (background s)[i := (task_id, Finished)]\<rparr>
               | Raises (PyBaseException c) \<Rightarrow>
                   s\<lparr>background := (background s)[i := (task_id, Finished)]\<rparr>)
      else s)"

text \<open>What can happen to the server: a call of the tool, or a step of one unit, in any
  order and with any interleaving between units.\<close>

datatype event =
    Call_generate_research_idea string int int string string bool
  | Start_unit nat string
  | Finish_unit nat outcome string

fun step :: "server \<Rightarrow> event \<Rightarrow> server" where
  "step s (Call_generate_research_idea keyword paper_count ts c u loop_running) =
     snd (generate_research_idea s keyword paper_count ts c u loop_running)"
| "step s (Start_unit i now) = unit_start s i now"
| "step s (Finish_unit i out now) = unit_finish s i out now"

definition run_server :: "event list \<Rightarrow> server" where
  "run_server es = foldl step init_server es"

section \<open>Status histories\<close>

text \<open>
  The status values that the record of \<open>task_id\<close> takes along a sequence of registry
  states: the status in each state that has the record, a value that stays over several
  states counted once.
\<close>

definition status_history :: "string \<Rightarrow> registry list \<Rightarrow> string list" where
  "status_history task_id regs =
     remdups_adj (concat (map (\<lambda>r. case get_task r task_id of None \<Rightarrow> []
                                     | Some t \<Rightarrow> [status t]) regs))"

text \<open>A prefix of pending, running, completed or of pending, running, failed.\<close>

definition lifecycle_ok :: "string list \<Rightarrow> bool" where
  "lifecycle_ok h \<longleftrightarrow>
     prefix h [''pending'', ''running'', ''completed''] \<or>
     prefix h [''pending'', ''running'', ''failed'']"

section \<open>Auxiliary definitions for the proofs\<close>

text \<open>Reading a decimal string back, the inverse of \<^const>\<open>str_nat\<close>.\<close>

definition digit_val :: "char \<Rightarrow> nat" where
  "digit_val c = of_char c - 48"

definition nat_of_digits :: "string \<Rightarrow> nat" where
  "nat_of_digits cs = foldl (\<lambda>a c. 10 * a + digit_val c) 0 cs"

text \<open>
  Every key of the registry has the shape \<^verbatim>\<open>task_<n>_<rest>\<close> with a counter \<open>n\<close> that
  is at most the number of entries, and no key occurs twice.
\<close>

definition good_keys :: "registry \<Rightarrow> bool" where
  "good_keys tasks \<longleftrightarrow>
     distinct (map fst tasks) \<and>
     (\<forall>k \<in> fst ` set tasks. \<exists>n rest. k = ''task_'' @ str_nat n @ ''_'' @ rest \<and> n \<le> length tasks)"

text \<open>A property of every stored record.\<close>

definition all_records :: "(task \<Rightarrow> bool) \<Rightarrow> registry \<Rightarrow> bool" where
  "all_records P tasks \<longleftrightarrow> (\<forall>kt \<in> set tasks. P (snd kt))"

text \<open>The status a unit's task can have in each phase of the unit.\<close>

fun unit_status_ok :: "phase \<Rightarrow> string \<Rightarrow> bool" where
  "unit_status_ok Scheduled st \<longleftrightarrow> st = ''pending''"
| "unit_status_ok Awaiting st \<longleftrightarrow> st = ''running''"
| "unit_status_ok Finished st \<longleftrightarrow> st = ''running'' \<or> st = ''completed'' \<or> st = ''failed''"

text \<open>
  The invariant of the server: well-formed keys, at most one unit per task id, every
  unit's task stored with a status that fits the unit's phase, every task without a unit
  pending.
\<close>

definition server_inv :: "server \<Rightarrow> bool" where
  "server_inv s \<longleftrightarrow>
     good_keys (task_manager s) \<and>
     distinct (map fst (background s)) \<and>
     (\<forall>k ph. map_of (background s) k = Some ph \<longrightarrow>
        (\<exists>t. get_task (task_manager s) k = Some t \<and> unit_status_ok ph (status t))) \<and>
     (\<forall>k t. get_task (task_manager s) k = Some t \<longrightarrow> map_of (background s) k = None \<longrightarrow>
        status t = ''pending'')"

definition status_of :: "server \<Rightarrow> string \<Rightarrow> string option" where
  "status_of s k = map_option status (get_task (task_manager s) k)"

text \<open>The moves of one task's status in one step of the server.\<close>

definition status_step :: "string option \<Rightarrow> string option \<Rightarrow> bool" where
  "status_step a b \<longleftrightarrow>
     a = b \<or>
     (a = None \<and> b = Some ''pending'') \<or>
     (a = Some ''pending'' \<and> b = Some ''running'') \<or>
     (a = Some ''running'' \<and> (b = Some ''completed'' \<or> b = Some ''failed''))"

text \<open>A history that fits the current status.\<close>

definition hist_ok :: "string option \<Rightarrow> string list \<Rightarrow> bool" where
  "hist_ok a h \<longleftrightarrow>
     (a = None \<and> h = []) \<or>
     (a = Some ''pending'' \<and> h = [''pending'']) \<or>
     (a = Some ''running'' \<and> h = [''pending'', ''running'']) \<or>
     (a = Some ''completed'' \<and> h = [''pending'', ''running'', ''completed'']) \<or>
     (a = Some ''failed'' \<and> h = [''pending'', ''running'', ''failed''])"

section \<open>Decimal strings\<close>

lemma str_nat_digit: "n < 10 \<Longrightarrow> str_nat n = [digit_char n]"
  by (simp add: str_nat.simps [of n])

lemma digit_cases:
  assumes "d < (10::nat)"
  shows "d = 0 \<or> d = 1 \<or> d = 2 \<or> d = 3 \<or> d = 4 \<or> d = 5 \<or> d = 6 \<or> d = 7 \<or> d = 8 \<or> d = 9"
  using assms by arith

lemma digit_char_not_underscore: "d < 10 \<Longrightarrow> digit_char d \<noteq> CHR ''_''"
  using digit_cases [of d] by (auto simp: digit_char_def)

lemma digit_val_digit_char: "d < 10 \<Longrightarrow> digit_val (digit_char d) = d"
  using digit_cases [of d] by (auto simp: digit_char_def digit_val_def)

lemma str_nat_no_underscore: "CHR ''_'' \<notin> set (str_nat n)"
proof (induction n rule: str_nat.induct)
  case (1 n)
  show ?case
  proof (cases "n < 10")
    case True
    then show ?thesis
      using digit_char_not_underscore [of n] by (simp add: str_nat.simps [of n])
  next
    case False
    then show ?thesis
      using 1 digit_char_not_underscore [of "n mod 10"] by (simp add: str_nat.simps [of n])
  qed
qed

lemma nat_of_digits_snoc: "nat_of_digits (cs @ [c]) = 10 * nat_of_digits cs + digit_val c"
  by (simp add: nat_of_digits_def)

lemma nat_of_digits_str_nat: "nat_of_digits (str_nat n) = n"
proof (induction n rule: str_nat.induct)
  case (1 n)
  show ?case
  proof (cases "n < 10")
    case True
    then show ?thesis
      by (simp add: str_nat.simps [of n] nat_of_digits_def digit_val_digit_char)
  next
    case False
    then show ?thesis
      using 1 by (simp add: str_nat.simps [of n] nat_of_digits_snoc digit_val_digit_char)
  qed
qed

lemma str_nat_inj: "str_nat n = str_nat m \<Longrightarrow> n = m"
  by (metis nat_of_digits_str_nat)

lemma takeWhile_until:
  "x \<notin> set xs \<Longrightarrow> takeWhile (\<lambda>c. c \<noteq> x) (xs @ x # ys) = xs"
  by (induction xs) auto

lemma counter_prefix:
  "takeWhile (\<lambda>c. c \<noteq> CHR ''_'') (str_nat n @ ''_'' @ rest) = str_nat n"
  using takeWhile_until [OF str_nat_no_underscore, of n rest] by simp

lemma task_id_counter_inj:
  assumes "''task_'' @ str_nat n @ ''_'' @ a = ''task_'' @ str_nat m @ ''_'' @ b"
  shows "n = m"
proof -
  from assms have "str_nat n @ ''_'' @ a = str_nat m @ ''_'' @ b" by simp
  then have "str_nat n = str_nat m"
    using counter_prefix [of n a] counter_prefix [of m b] by simp
  then show ?thesis by (rule str_nat_inj)
qed

section \<open>The registry as a dictionary\<close>

lemma length_alist_update:
  "length (AList.update k v al) = (if k \<in> fst ` set al then length al else Suc (length al))"
  by (induction al) auto

lemma length_alist_map_entry: "length (AList.map_entry k f al) = length al"
  by (induction al) auto

lemma map_of_None_iff: "map_of al k = None \<longleftrightarrow> k \<notin> fst ` set al"
  by (simp add: map_of_eq_None_iff)

lemma good_keys_empty: "good_keys []"
  by (simp add: good_keys_def)

lemma create_task_fresh:
  assumes "good_keys tasks"
  shows "fst (create_task tasks ty ps ts c u) \<notin> fst ` set tasks"
proof
  let ?k = "''task_'' @ str_nat (length tasks + 1) @ ''_'' @ str_int ts"
  assume "fst (create_task tasks ty ps ts c u) \<in> fst ` set tasks"
  then have "?k \<in> fst ` set tasks" by (simp add: create_task_def Let_def)
  with assms obtain n rest where
    k: "?k = ''task_'' @ str_nat n @ ''_'' @ rest" and n: "n \<le> length tasks"
    unfolding good_keys_def by blast
  from task_id_counter_inj [OF k] n show False by simp
qed

lemma good_keys_create:
  assumes "good_keys tasks"
  shows "good_keys (snd (create_task tasks ty ps ts c u))"
proof -
  let ?k = "''task_'' @ str_nat (length tasks + 1) @ ''_'' @ str_int ts"
  have fresh: "?k \<notin> fst ` set tasks"
    using create_task_fresh [OF assms, of ty ps ts c u] by (simp add: create_task_def Let_def)
  have "\<exists>n rest. k = ''task_'' @ str_nat n @ ''_'' @ rest \<and> n \<le> Suc (length tasks)"
    if "k = ?k \<or> k \<in> fst ` set tasks" for k
    using that
  proof
    assume "k = ?k"
    then show ?thesis by (intro exI [of _ "length tasks + 1"] exI [of _ "str_int ts"]) simp
  next
    assume "k \<in> fst ` set tasks"
    with assms obtain n rest where "k = ''task_'' @ str_nat n @ ''_'' @ rest" "n \<le> length tasks"
      unfolding good_keys_def by blast
    then show ?thesis by (intro exI [of _ n] exI [of _ rest]) simp
  qed
  with assms fresh show ?thesis
    by (simp add: good_keys_def create_task_def Let_def AList.distinct_update AList.dom_update
        length_alist_update)
qed

lemma good_keys_map_entry: "good_keys tasks \<Longrightarrow> good_keys (AList.map_entry tid f tasks)"
  unfolding good_keys_def
  by (simp only: AList.distinct_map_entry AList.dom_map_entry length_alist_map_entry) blast

lemma good_keys_update: "good_keys tasks \<Longrightarrow> good_keys (update_task tasks tid st res err now)"
  by (simp add: update_task_def good_keys_map_entry)

lemma good_keys_step: "good_keys tasks \<Longrightarrow> good_keys (tm_step tasks op)"
  by (cases op) (simp_all add: good_keys_create good_keys_update)

lemma good_keys_foldl: "good_keys tasks \<Longrightarrow> good_keys (foldl tm_step tasks ops)"
  by (induction ops arbitrary: tasks) (simp_all add: good_keys_step)

lemma good_keys_run: "good_keys (tm_run ops)"
  by (simp add: tm_run_def good_keys_foldl good_keys_empty)


lemma keys_create:
  "fst ` set (snd (create_task tasks ty ps ts c u)) =
     insert (fst (create_task tasks ty ps ts c u)) (fst ` set tasks)"
  by (simp add: create_task_def Let_def AList.dom_update)

lemma keys_update: "fst ` set (update_task tasks tid st res err now) = fst ` set tasks"
  by (simp add: update_task_def AList.dom_map_entry)

lemma get_task_create_other:
  "k \<noteq> fst (create_task tasks ty ps ts c u) \<Longrightarrow>
     get_task (snd (create_task tasks ty ps ts c u)) k = get_task tasks k"
  by (simp add: create_task_def Let_def get_task_def AList.update_conv')

lemma get_task_create_new:
  "get_task (snd (create_task tasks ty ps ts c u)) (fst (create_task tasks ty ps ts c u)) =
     Some \<lparr>id = fst (create_task tasks ty ps ts c u), type = ty, status = ''pending'',
           params = ps, created_at = c, updated_at = u, result = PNone, error = None,
           progress = 0\<rparr>"
  by (simp add: create_task_def Let_def get_task_def AList.update_conv')

lemma get_task_update_other:
  "k \<noteq> tid \<Longrightarrow> get_task (update_task tasks tid st res err now) k = get_task tasks k"
  by (simp add: update_task_def get_task_def AList.map_of_map_entry)

lemma get_task_update_same:
  "get_task tasks tid = Some t \<Longrightarrow>
     get_task (update_task tasks tid st res err now) tid =
       Some (t\<lparr>status := st, updated_at := now, result := res, error := err,
               progress := (if st = ''completed'' then 100
                            else if st = ''running'' then 50 else 0)\<rparr>)"
  by (simp add: update_task_def get_task_def AList.map_of_map_entry)

lemma get_task_update_absent:
  "get_task tasks tid = None \<Longrightarrow> update_task tasks tid st res err now = tasks"
  by (simp add: update_task_def get_task_def)

section \<open>Properties of every stored record\<close>

lemma all_records_empty: "all_records P []"
  by (simp add: all_records_def)

lemma set_alist_update: "set (AList.update k v al) \<subseteq> insert (k, v) (set al)"
  by (induction al) auto

lemma set_alist_map_entry:
  "set (AList.map_entry k f al) \<subseteq> set al \<union> {(k, f v) | v. (k, v) \<in> set al}"
  by (induction al) auto

lemma all_records_create:
  assumes "all_records P tasks"
    and "P \<lparr>id = fst (create_task tasks ty ps ts c u), type = ty, status = ''pending'',
            params = ps, created_at = c, updated_at = u, result = PNone, error = None,
            progress = 0\<rparr>"
  shows "all_records P (snd (create_task tasks ty ps ts c u))"
  using assms set_alist_update
  unfolding all_records_def create_task_def Let_def by fastforce

lemma all_records_update:
  assumes "all_records P tasks"
    and "\<And>t. P (t\<lparr>status := st, updated_at := now, result := res, error := err,
                   progress := (if st = ''completed'' then 100
                                else if st = ''running'' then 50 else 0)\<rparr>)"
  shows "all_records P (update_task tasks tid st res err now)"
proof (cases "map_of tasks tid")
  case None
  with assms(1) show ?thesis by (simp add: update_task_def)
next
  case (Some t0)
  let ?f = "\<lambda>t. t\<lparr>status := st, updated_at := now, result := res, error := err,
                   progress := (if st = ''completed'' then 100
                                else if st = ''running'' then 50 else (0::int))\<rparr>"
  have "P (snd kt)" if "kt \<in> set (AList.map_entry tid ?f tasks)" for kt
  proof -
    from that set_alist_map_entry [of tid ?f tasks]
    have "kt \<in> set tasks \<or> (\<exists>v. kt = (tid, ?f v))" by blast
    then show ?thesis
      using assms unfolding all_records_def by auto
  qed
  with Some show ?thesis by (simp add: update_task_def all_records_def)
qed

lemma get_task_all_records: "all_records P tasks \<Longrightarrow> get_task tasks k = Some t \<Longrightarrow> P t"
  unfolding all_records_def get_task_def by (fastforce dest: map_of_SomeD)


section \<open>Task ids\<close>



lemmas eval_simps =
  create_task_def update_task_def get_task_def tm_run_def str_int_def str_nat_digit
  digit_char_def Let_def



section \<open>Progress follows status\<close>

lemma all_records_step:
  assumes "all_records P tasks"
    and "\<And>tid ty ps c u. P \<lparr>id = tid, type = ty, status = ''pending'', params = ps,
            created_at = c, updated_at = u, result = PNone, error = None, progress = 0\<rparr>"
    and "\<And>t st res err now.
            P (t\<lparr>status := st, updated_at := now, result := res, error := err,
                  progress := (if st = ''completed'' then 100
                               else if st = ''running'' then 50 else 0)\<rparr>)"
  shows "all_records P (tm_step tasks op)"
proof (cases op)
  case (Create_task ty ps ts c u)
  then show ?thesis using assms(1,2) by (simp add: all_records_create)
next
  case (Update_task tid st res err now)
  then show ?thesis using assms(1,3) by (simp add: all_records_update)
qed

lemma progress_table_foldl:
  assumes "all_records (\<lambda>t. progress t = (if status t = ''completed'' then 100
                                          else if status t = ''running'' then 50 else 0)) tasks"
  shows "all_records (\<lambda>t. progress t = (if status t = ''completed'' then 100
                                        else if status t = ''running'' then 50 else 0))
           (foldl tm_step tasks ops)"
  using assms
proof (induction ops arbitrary: tasks)
  case Nil
  then show ?case by simp
next
  case (Cons op ops)
  have "all_records (\<lambda>t. progress t = (if status t = ''completed'' then 100
                                        else if status t = ''running'' then 50 else 0))
          (tm_step tasks op)"
    using Cons.prems by (rule all_records_step) simp_all
  from Cons.IH [OF this] show ?case by simp
qed

text \<open>
  C3. After any sequence of \<^verbatim>\<open>create_task\<close> and \<^verbatim>\<open>update_task\<close> calls (so after every
  operation), every stored record has progress 0 when its status is pending, 50 when it
  is running, 100 when it is completed and 0 when it is failed.
\<close>

theorem progress_matches_status:
  assumes "get_task (tm_run ops) tid = Some t"
  shows "(status t = ''pending'' \<longrightarrow> progress t = 0) \<and>
         (status t = ''running'' \<longrightarrow> progress t = 50) \<and>
         (status t = ''completed'' \<longrightarrow> progress t = 100) \<and>
         (status t = ''failed'' \<longrightarrow> progress t = 0)"
proof -
  have "all_records (\<lambda>t. progress t = (if status t = ''completed'' then 100
                                        else if status t = ''running'' then 50 else 0))
          (tm_run ops)"
    unfolding tm_run_def by (rule progress_table_foldl) (rule all_records_empty)
  from get_task_all_records [OF this assms] show ?thesis by simp
qed

theorem progress_matches_status_witness:
  "get_task (tm_run [Create_task ''generate_research_idea'' [] 7 ''a'' ''b'',
                     Update_task ''task_1_7'' ''running'' PNone None ''c'']) ''task_1_7''
     = Some \<lparr>id = ''task_1_7'', type = ''generate_research_idea'', status = ''running'',
          params = [], created_at = ''a'', updated_at = ''c'', result = PNone, error = None,
          progress = 50\<rparr> \<and>
   progress \<lparr>id = ''task_1_7'', type = ''generate_research_idea'', status = ''running'',
          params = [], created_at = ''a'', updated_at = ''c'', result = PNone, error = None,
          progress = 50\<rparr> = 50"
proof -
  have h: "get_task (tm_run [Create_task ''generate_research_idea'' [] 7 ''a'' ''b'',
                     Update_task ''task_1_7'' ''running'' PNone None ''c'']) ''task_1_7''
     = Some \<lparr>id = ''task_1_7'', type = ''generate_research_idea'', status = ''running'',
          params = [], created_at = ''a'', updated_at = ''c'', result = PNone, error = None,
          progress = 50\<rparr>"
    by (simp add: eval_simps)
  from progress_matches_status [OF h] h show ?thesis by simp
qed

section \<open>Updating an unknown id\<close>

text \<open>
  C5. \<^verbatim>\<open>update_task\<close> on an id that is not a key of the registry returns normally (the
  model has no error branch, as the method has no \<^verbatim>\<open>raise\<close> and indexes the dict only
  under the membership test) and leaves the whole registry as it was: no task is
  created and no record changes.
\<close>

theorem update_task_unknown_id:
  assumes "get_task tasks tid = None"
  shows "update_task tasks tid st res err now = tasks"
  using assms by (rule get_task_update_absent)

theorem update_task_unknown_id_witness:
  "get_task (snd (create_task [] ''generate_research_idea'' [] 7 ''a'' ''b'')) ''task_2_7'' = None \<and>
   update_task (snd (create_task [] ''generate_research_idea'' [] 7 ''a'' ''b''))
     ''task_2_7'' ''completed'' (PStr ''idea'') (Some ''oops'') ''c''
     = snd (create_task [] ''generate_research_idea'' [] 7 ''a'' ''b'')"
proof -
  have h: "get_task (snd (create_task [] ''generate_research_idea'' [] 7 ''a'' ''b''))
             ''task_2_7'' = None"
    by (simp add: eval_simps)
  from update_task_unknown_id [OF h] h show ?thesis by simp
qed

section \<open>Creation and immediate polling\<close>

text \<open>
  C7. For every registry, type and params, \<^verbatim>\<open>create_task\<close> returns an id under which the
  registry then holds a record with that id, the given type and params, status
  \<^verbatim>\<open>"pending"\<close>, progress 0, result \<^verbatim>\<open>None\<close> and error \<^verbatim>\<open>None\<close>; \<^verbatim>\<open>get_task_status\<close> on the
  returned id answers \<^verbatim>\<open>success: True\<close> with a task object of status \<^verbatim>\<open>"pending"\<close> and
  progress 0.
\<close>

theorem create_task_then_status:
  "get_task (snd (create_task tasks ty ps ts c u)) (fst (create_task tasks ty ps ts c u)) =
     Some \<lparr>id = fst (create_task tasks ty ps ts c u), type = ty, status = ''pending'',
           params = ps, created_at = c, updated_at = u, result = PNone, error = None,
           progress = 0\<rparr> \<and>
   get_task_status (snd (create_task tasks ty ps ts c u)) (fst (create_task tasks ty ps ts c u)) =
     [(''success'', PBool True),
      (''message'', PStr msg_status_ok),
      (''task'', PDict
         [(''id'', PStr (fst (create_task tasks ty ps ts c u))),
          (''type'', PStr ty),
          (''status'', PStr ''pending''),
          (''progress'', PInt 0),
          (''created_at'', PStr c),
          (''updated_at'', PStr u),
          (''error'', PNone)])]"
  by (simp add: get_task_status_def get_task_create_new error_value_def)

theorem create_task_then_status_witness:
  "fst (create_task [] ''generate_idea''
          [(''keyword'', PStr ''dark matter''), (''paper_count'', PInt 3)] 7 ''a'' ''b'')
     = ''task_1_7'' \<and>
   get_task_status
     (snd (create_task [] ''generate_idea''
          [(''keyword'', PStr ''dark matter''), (''paper_count'', PInt 3)] 7 ''a'' ''b''))
     ''task_1_7'' =
     [(''success'', PBool True),
      (''message'', PStr msg_status_ok),
      (''task'', PDict
         [(''id'', PStr ''task_1_7''),
          (''type'', PStr ''generate_idea''),
          (''status'', PStr ''pending''),
          (''progress'', PInt 0),
          (''created_at'', PStr ''a''),
          (''updated_at'', PStr ''b''),
          (''error'', PNone)])]"
proof -
  have h: "fst (create_task [] ''generate_idea''
          [(''keyword'', PStr ''dark matter''), (''paper_count'', PInt 3)] 7 ''a'' ''b'')
     = ''task_1_7''"
    by (simp add: eval_simps)
  from create_task_then_status [of "[]" "''generate_idea''"
      "[(''keyword'', PStr ''dark matter''), (''paper_count'', PInt 3)]" 7 "''a''" "''b''"]
  show ?thesis unfolding h by simp
qed

section \<open>Frame: the other records\<close>

text \<open>
  C10. \<^verbatim>\<open>update_task\<close> on an id leaves the record of every other id as it was, in any
  registry, and adds or removes no key. \<^verbatim>\<open>create_task\<close>, in any registry that the
  TaskManager can reach from its empty start, leaves every record already stored as it
  was: the keys afterwards are the old keys and the new id, which was not a key before.
\<close>

theorem other_records_unchanged:
  "(k \<noteq> tid \<longrightarrow> get_task (update_task tasks tid st res err now) k = get_task tasks k) \<and>
   fst ` set (update_task tasks tid st res err now) = fst ` set tasks \<and>
   (get_task (tm_run ops) k \<noteq> None \<longrightarrow>
      get_task (snd (create_task (tm_run ops) ty ps ts c u)) k = get_task (tm_run ops) k) \<and>
   fst ` set (snd (create_task (tm_run ops) ty ps ts c u)) =
     insert (fst (create_task (tm_run ops) ty ps ts c u)) (fst ` set (tm_run ops)) \<and>
   fst (create_task (tm_run ops) ty ps ts c u) \<notin> fst ` set (tm_run ops)"
proof -
  have fresh: "fst (create_task (tm_run ops) ty ps ts c u) \<notin> fst ` set (tm_run ops)"
    using good_keys_run by (rule create_task_fresh)
  have "get_task (snd (create_task (tm_run ops) ty ps ts c u)) k = get_task (tm_run ops) k"
    if "get_task (tm_run ops) k \<noteq> None"
  proof -
    from that have "k \<in> fst ` set (tm_run ops)"
      by (simp add: get_task_def map_of_None_iff)
    with fresh have "k \<noteq> fst (create_task (tm_run ops) ty ps ts c u)" by blast
    then show ?thesis by (rule get_task_create_other)
  qed
  with fresh show ?thesis
    by (simp add: get_task_update_other keys_update keys_create)
qed

theorem other_records_unchanged_witness:
  "get_task (update_task
       (tm_run [Create_task ''t'' [] 7 ''a'' ''b'', Create_task ''t'' [] 7 ''c'' ''d''])
       ''task_2_7'' ''failed'' PNone (Some ''boom'') ''e'') ''task_1_7''
     = Some \<lparr>id = ''task_1_7'', type = ''t'', status = ''pending'', params = [],
          created_at = ''a'', updated_at = ''b'', result = PNone, error = None, progress = 0\<rparr> \<and>
   get_task (snd (create_task
       (tm_run [Create_task ''t'' [] 7 ''a'' ''b'', Create_task ''t'' [] 7 ''c'' ''d''])
       ''t'' [] 7 ''e'' ''f'')) ''task_1_7''
     = Some \<lparr>id = ''task_1_7'', type = ''t'', status = ''pending'', params = [],
          created_at = ''a'', updated_at = ''b'', result = PNone, error = None, progress = 0\<rparr>"
  using other_records_unchanged
    [of "''task_1_7''" "''task_2_7''"
        "tm_run [Create_task ''t'' [] 7 ''a'' ''b'', Create_task ''t'' [] 7 ''c'' ''d'']"
        "''failed''" PNone "Some ''boom''" "''e''"
        "[Create_task ''t'' [] 7 ''a'' ''b'', Create_task ''t'' [] 7 ''c'' ''d'']"
        "''t''" "[]" 7 "''e''" "''f''"]
  by (simp add: eval_simps)


section \<open>Polling a completed task\<close>

text \<open>
  C6, as stated, fails: the task object that \<^verbatim>\<open>get_task_status\<close> builds has the keys id,
  type, status, progress, created_at, updated_at and error, and no \<^verbatim>\<open>result\<close> key. After
  \<^verbatim>\<open>update_task(T, "completed", result=R)\<close> with \<open>R\<close> the string \<^verbatim>\<open>idea\<close>, the response
  shows status completed and holds nothing under \<^verbatim>\<open>task.result\<close>.
\<close>

theorem status_response_has_no_result:
  "lookup_path [''task'', ''status'']
     (PDict (get_task_status
        (update_task (snd (create_task [] ''generate_research_idea'' [] 7 ''a'' ''b''))
           ''task_1_7'' ''completed'' (PStr ''idea'') None ''c'')
        ''task_1_7'')) = Some (PStr ''completed'') \<and>
   lookup_path [''task'', ''result'']
     (PDict (get_task_status
        (update_task (snd (create_task [] ''generate_research_idea'' [] 7 ''a'' ''b''))
           ''task_1_7'' ''completed'' (PStr ''idea'') None ''c'')
        ''task_1_7'')) \<noteq> Some (PStr ''idea'')"
  by (simp add: eval_simps get_task_status_def error_value_def)

text \<open>
  C6, amended. When \<open>T\<close> is a stored task and \<^verbatim>\<open>update_task(T, "completed", result=R)\<close> was
  the last transition, \<^verbatim>\<open>get_task_status(T)\<close> answers \<^verbatim>\<open>success: True\<close> with a task object
  of status \<^verbatim>\<open>"completed"\<close>, progress 100 and error \<^verbatim>\<open>None\<close>; the object has no result
  entry. \<open>R\<close> is in the stored record, which \<^verbatim>\<open>get_task\<close> returns.
\<close>

theorem completed_task_status:
  assumes "get_task tasks T = Some t"
  shows "get_task_status (update_task tasks T ''completed'' R None now) T =
           [(''success'', PBool True),
            (''message'', PStr msg_status_ok),
            (''task'', PDict
               [(''id'', PStr (id t)),
                (''type'', PStr (type t)),
                (''status'', PStr ''completed''),
                (''progress'', PInt 100),
                (''created_at'', PStr (created_at t)),
                (''updated_at'', PStr now),
                (''error'', PNone)])] \<and>
         lookup_path [''task'', ''result'']
           (PDict (get_task_status (update_task tasks T ''completed'' R None now) T)) = None \<and>
         map_option result (get_task (update_task tasks T ''completed'' R None now) T) = Some R"
  using get_task_update_same [OF assms, of "''completed''" R None now]
  by (simp add: get_task_status_def error_value_def)

theorem completed_task_status_witness:
  "get_task (snd (create_task [] ''generate_research_idea'' [] 7 ''a'' ''b'')) ''task_1_7'' =
     Some \<lparr>id = ''task_1_7'', type = ''generate_research_idea'', status = ''pending'',
           params = [], created_at = ''a'', updated_at = ''b'', result = PNone, error = None,
           progress = 0\<rparr> \<and>
   get_task_status
     (update_task (snd (create_task [] ''generate_research_idea'' [] 7 ''a'' ''b''))
        ''task_1_7'' ''completed'' (PStr ''idea'') None ''c'') ''task_1_7'' =
     [(''success'', PBool True),
      (''message'', PStr msg_status_ok),
      (''task'', PDict
         [(''id'', PStr ''task_1_7''),
          (''type'', PStr ''generate_research_idea''),
          (''status'', PStr ''completed''),
          (''progress'', PInt 100),
          (''created_at'', PStr ''a''),
          (''updated_at'', PStr ''c''),
          (''error'', PNone)])]"
proof -
  have h: "get_task (snd (create_task [] ''generate_research_idea'' [] 7 ''a'' ''b''))
             ''task_1_7'' =
     Some \<lparr>id = ''task_1_7'', type = ''generate_research_idea'', status = ''pending'',
           params = [], created_at = ''a'', updated_at = ''b'', result = PNone, error = None,
           progress = 0\<rparr>"
    by (simp add: eval_simps)
  from completed_task_status [OF h, of "PStr ''idea''" "''c''"] h show ?thesis by simp
qed


section \<open>The error stream's frames\<close>

text \<open>
  C9. \<^verbatim>\<open>error_stream_gen\<close> yields exactly two frames. The first is \<^verbatim>\<open>data: \<close>, the JSON text
  of \<^verbatim>\<open>{"choices": [{"delta": {"role": "assistant", "content": m}}]}\<close> with \<open>m\<close> the
  operation-failed message, and two newlines; the second is \<^verbatim>\<open>data: [DONE]\<close> and two
  newlines. Nothing follows.
\<close>

theorem error_stream_two_frames:
  \<open>length error_stream_gen = 2 \<and>
   error_stream_gen ! 0 =
     ''data: '' @
     json_dumps (PDict [(''choices'', PList [PDict [(''delta'',
        PDict [(''role'', PStr ''assistant''), (''content'', PStr msg_operation_failed)])]])]) @
     [CHR 0x0A, CHR 0x0A] \<and>
   error_stream_gen ! 0 =
     ''data: {"choices": [{"delta": {"role": "assistant", "content": "'' @
     msg_operation_failed @ ''"}}]}'' @ [CHR 0x0A, CHR 0x0A] \<and>
   error_stream_gen ! 1 = ''data: [DONE]'' @ [CHR 0x0A, CHR 0x0A] \<and>
   error_stream_gen =
     [''data: {"choices": [{"delta": {"role": "assistant", "content": "'' @
      msg_operation_failed @ ''"}}]}'' @ [CHR 0x0A, CHR 0x0A],
      ''data: [DONE]'' @ [CHR 0x0A, CHR 0x0A]]\<close>
  by (simp add: error_stream_gen_def Let_def json_string_def json_escape_def
      msg_operation_failed_def)


section \<open>Synchronous tools absorb failures\<close>

lemma py_iter_raises: "py_iter v = Inl e \<Longrightarrow> \<exists>m. e = PyException m"
  by (cases v) auto

lemma py_len_raises: "py_len v = Inl e \<Longrightarrow> \<exists>m. e = PyException m"
  by (cases v) auto

lemma format_paper_raises: "format_paper p = Inl e \<Longrightarrow> \<exists>m. e = PyException m"
  by (cases p) auto

lemma format_all_raises: "format_all ps = Inl e \<Longrightarrow> \<exists>m. e = PyException m"
  by (induction ps) (auto split: sum.splits dest: format_paper_raises)

lemma format_all_dicts:
  "list_all is_dict ps \<Longrightarrow> \<exists>fs. format_all ps = Inr fs \<and> length fs = length ps"
proof (induction ps)
  case Nil
  then show ?case by simp
next
  case (Cons p ps)
  then show ?case by (cases p) auto
qed

lemma search_papers_total:
  assumes "\<not> raises_base_exception (search_paper keyword limit)"
  shows "\<exists>d. search_papers search_paper keyword limit = Inr d \<and>
              (success_response d ''papers'' \<or> failure_response d ''papers'' (PList []))"
proof (cases "search_paper keyword limit")
  case (Raises e)
  with assms obtain m where "e = PyException m" by (cases e) auto
  with Raises show ?thesis
    by (simp add: search_papers_def except_Exception_def)
next
  case (Returns v)
  show ?thesis
  proof (cases "truthy v")
    case False
    with Returns show ?thesis by (simp add: search_papers_def)
  next
    case True
    show ?thesis
    proof (cases "py_iter v")
      case (Inl e)
      then obtain m where "e = PyException m" using py_iter_raises by blast
      with Returns True Inl show ?thesis
        by (simp add: search_papers_def except_Exception_def)
    next
      case (Inr xs)
      show ?thesis
      proof (cases "format_all xs")
        case (Inl e)
        then obtain m where "e = PyException m" using format_all_raises by blast
        with Returns True Inr Inl show ?thesis
          by (simp add: search_papers_def except_Exception_def)
      next
        case fs: (Inr fs)
        with Returns True Inr show ?thesis
          by (simp add: search_papers_def)
      qed
    qed
  qed
qed

lemma extract_keywords_total:
  assumes "\<not> raises_base_exception (extract_technical_entities text split_section)"
  shows "\<exists>d. extract_keywords extract_technical_entities text split_section = Inr d \<and>
              (success_response d ''keywords'' \<or> failure_response d ''keywords'' (PList []))"
proof (cases "extract_technical_entities text split_section")
  case (Raises e)
  with assms obtain m where "e = PyException m" by (cases e) auto
  with Raises show ?thesis
    by (simp add: extract_keywords_def except_Exception_def)
next
  case (Returns v)
  show ?thesis
  proof (cases "truthy v")
    case False
    with Returns show ?thesis by (simp add: extract_keywords_def)
  next
    case True
    show ?thesis
    proof (cases "py_len v")
      case (Inl e)
      then obtain m where "e = PyException m" using py_len_raises by blast
      with Returns True Inl show ?thesis
        by (simp add: extract_keywords_def except_Exception_def)
    next
      case (Inr n)
      with Returns True show ?thesis
        by (simp add: extract_keywords_def)
    qed
  qed
qed

lemma review_research_idea_total:
  assumes "\<not> raises_base_exception (review_mechanism topic draft)"
  shows "\<exists>d. review_research_idea review_mechanism topic draft = Inr d \<and>
              (success_response d ''review'' \<or> failure_response d ''review'' PNone)"
proof (cases "review_mechanism topic draft")
  case (Raises e)
  with assms obtain m where "e = PyException m" by (cases e) auto
  with Raises show ?thesis
    by (simp add: review_research_idea_def except_Exception_def)
next
  case (Returns v)
  then show ?thesis
    by (cases "truthy v")
       (simp_all add: review_research_idea_def)
qed

lemma compress_paper_content_total:
  assumes "\<not> raises_base_exception (paper_compression title abstract content)"
  shows "\<exists>d. compress_paper_content paper_compression title abstract content = Inr d \<and>
              (success_response d ''compressed_content'' \<or>
               failure_response d ''compressed_content'' PNone)"
proof (cases "paper_compression title abstract content")
  case (Raises e)
  with assms obtain m where "e = PyException m" by (cases e) auto
  with Raises show ?thesis
    by (simp add: compress_paper_content_def except_Exception_def)
next
  case (Returns v)
  then show ?thesis
    by (cases "truthy v")
       (simp_all add: compress_paper_content_def)
qed

lemma search_papers_success:
  assumes "search_paper keyword limit = Returns (PList ps)" and "ps \<noteq> []"
    and "list_all is_dict ps"
  shows "\<exists>fs. length fs = length ps \<and>
           search_papers search_paper keyword limit =
             Inr [(''success'', PBool True),
                  (''message'', PStr (msg_papers_found_pre @ str_nat (length ps)
                     @ msg_papers_found_post)),
                  (''papers'', PList fs)]"
proof -
  from format_all_dicts [OF assms(3)] obtain fs where
    "format_all ps = Inr fs" "length fs = length ps" by blast
  with assms(1,2) show ?thesis by (simp add: search_papers_def)
qed


text \<open>
  C4, as stated, fails on "raises any exception": the handlers are \<^verbatim>\<open>except Exception\<close>, so
  an exception outside \<^verbatim>\<open>Exception\<close> leaves the tool. A collaborator that exits the
  interpreter (\<^verbatim>\<open>SystemExit\<close>) makes \<^verbatim>\<open>search_papers\<close> raise instead of returning a dict.
\<close>

theorem search_papers_propagates_system_exit:
  "search_papers exiting_search ''black hole'' 5 = Inl (PyBaseException ''SystemExit'')"
  by (simp add: search_papers_def exiting_search_def except_Exception_def)

text \<open>
  C4, amended. For each of the four synchronous tools with a collaborator, and for all
  arguments: unless the collaborator raises an exception that is not an \<^verbatim>\<open>Exception\<close>, the
  tool returns a dict of the success shape or of the failure shape with its default data
  (\<^verbatim>\<open>papers: []\<close>, \<^verbatim>\<open>keywords: []\<close>, \<^verbatim>\<open>review: None\<close>, \<^verbatim>\<open>compressed_content: None\<close>) and
  raises nothing. When the collaborator raises an \<^verbatim>\<open>Exception\<close> the response is the failure
  dict whose message ends in \<^verbatim>\<open>str(e)\<close>; when it returns a falsy value the response is the
  failure dict with the tool's fixed message; when it returns a truthy value that the
  tool can process (for \<^verbatim>\<open>search_papers\<close> a non-empty list of dicts, for
  \<^verbatim>\<open>extract_keywords\<close> a value with a length, for the other two any truthy value) the
  response is the success dict carrying the data.
\<close>

theorem sync_tools_absorb_exceptions:
  "(\<not> raises_base_exception (search_paper keyword limit) \<longrightarrow>
      (\<exists>d. search_papers search_paper keyword limit = Inr d \<and>
           (success_response d ''papers'' \<or> failure_response d ''papers'' (PList [])))) \<and>
   (search_paper keyword limit = Raises (PyException m) \<longrightarrow>
      search_papers search_paper keyword limit =
        Inr [(''success'', PBool False),
             (''message'', PStr (msg_search_error @ m)),
             (''papers'', PList [])]) \<and>
   (search_paper keyword limit = Returns v \<and> \<not> truthy v \<longrightarrow>
      search_papers search_paper keyword limit =
        Inr [(''success'', PBool False),
             (''message'', PStr msg_no_papers),
             (''papers'', PList [])]) \<and>
   (search_paper keyword limit = Returns (PList ps) \<and> ps \<noteq> [] \<and> list_all is_dict ps \<longrightarrow>
      (\<exists>fs. length fs = length ps \<and>
         search_papers search_paper keyword limit =
           Inr [(''success'', PBool True),
                (''message'', PStr (msg_papers_found_pre @ str_nat (length ps)
                   @ msg_papers_found_post)),
                (''papers'', PList fs)])) \<and>
   (\<not> raises_base_exception (extract_technical_entities text split_section) \<longrightarrow>
      (\<exists>d. extract_keywords extract_technical_entities text split_section = Inr d \<and>
           (success_response d ''keywords'' \<or> failure_response d ''keywords'' (PList [])))) \<and>
   (extract_technical_entities text split_section = Raises (PyException m) \<longrightarrow>
      extract_keywords extract_technical_entities text split_section =
        Inr [(''success'', PBool False),
             (''message'', PStr (msg_extract_error @ m)),
             (''keywords'', PList [])]) \<and>
   (extract_technical_entities text split_section = Returns v \<and> \<not> truthy v \<longrightarrow>
      extract_keywords extract_technical_entities text split_section =
        Inr [(''success'', PBool False),
             (''message'', PStr msg_no_keywords),
             (''keywords'', PList [])]) \<and>
   (extract_technical_entities text split_section = Returns v \<and> truthy v \<and>
      py_len v = Inr n \<longrightarrow>
      extract_keywords extract_technical_entities text split_section =
        Inr [(''success'', PBool True),
             (''message'', PStr (msg_keywords_found_pre @ str_nat n @ msg_keywords_found_post)),
             (''keywords'', v)]) \<and>
   (\<not> raises_base_exception (review_mechanism topic draft) \<longrightarrow>
      (\<exists>d. review_research_idea review_mechanism topic draft = Inr d \<and>
           (success_response d ''review'' \<or> failure_response d ''review'' PNone))) \<and>
   (review_mechanism topic draft = Raises (PyException m) \<longrightarrow>
      review_research_idea review_mechanism topic draft =
        Inr [(''success'', PBool False),
             (''message'', PStr (msg_review_error @ m)),
             (''review'', PNone)]) \<and>
   (review_mechanism topic draft = Returns v \<and> \<not> truthy v \<longrightarrow>
      review_research_idea review_mechanism topic draft =
        Inr [(''success'', PBool False),
             (''message'', PStr msg_review_failed),
             (''review'', PNone)]) \<and>
   (review_mechanism topic draft = Returns v \<and> truthy v \<longrightarrow>
      review_research_idea review_mechanism topic draft =
        Inr [(''success'', PBool True),
             (''message'', PStr msg_review_done),
             (''review'', v)]) \<and>
   (\<not> raises_base_exception (paper_compression title abstract content) \<longrightarrow>
      (\<exists>d. compress_paper_content paper_compression title abstract content = Inr d \<and>
           (success_response d ''compressed_content'' \<or>
            failure_response d ''compressed_content'' PNone))) \<and>
   (paper_compression title abstract content = Raises (PyException m) \<longrightarrow>
      compress_paper_content paper_compression title abstract content =
        Inr [(''success'', PBool False),
             (''message'', PStr (msg_compress_error @ m)),
             (''compressed_content'', PNone)]) \<and>
   (paper_compression title abstract content = Returns v \<and> \<not> truthy v \<longrightarrow>
      compress_paper_content paper_compression title abstract content =
        Inr [(''success'', PBool False),
             (''message'', PStr msg_compress_failed),
             (''compressed_content'', PNone)]) \<and>
   (paper_compression title abstract content = Returns v \<and> truthy v \<longrightarrow>
      compress_paper_content paper_compression title abstract content =
        Inr [(''success'', PBool True),
             (''message'', PStr msg_compress_done),
             (''compressed_content'', v)])"
proof -
  have s: "search_papers search_paper keyword limit =
        Inr [(''success'', PBool False), (''message'', PStr (msg_search_error @ m)),
             (''papers'', PList [])]"
    if "search_paper keyword limit = Raises (PyException m)"
    using that by (simp add: search_papers_def except_Exception_def)
  have s': "search_papers search_paper keyword limit =
        Inr [(''success'', PBool False), (''message'', PStr msg_no_papers),
             (''papers'', PList [])]"
    if "search_paper keyword limit = Returns v" "\<not> truthy v"
    using that by (simp add: search_papers_def)
  have e: "extract_keywords extract_technical_entities text split_section =
        Inr [(''success'', PBool False), (''message'', PStr (msg_extract_error @ m)),
             (''keywords'', PList [])]"
    if "extract_technical_entities text split_section = Raises (PyException m)"
    using that by (simp add: extract_keywords_def except_Exception_def)
  have e': "extract_keywords extract_technical_entities text split_section =
        Inr [(''success'', PBool False), (''message'', PStr msg_no_keywords),
             (''keywords'', PList [])]"
    if "extract_technical_entities text split_section = Returns v" "\<not> truthy v"
    using that by (simp add: extract_keywords_def)
  have e'': "extract_keywords extract_technical_entities text split_section =
        Inr [(''success'', PBool True),
             (''message'', PStr (msg_keywords_found_pre @ str_nat n @ msg_keywords_found_post)),
             (''keywords'', v)]"
    if "extract_technical_entities text split_section = Returns v" "truthy v" "py_len v = Inr n"
    using that by (simp add: extract_keywords_def)
  have r: "review_research_idea review_mechanism topic draft =
        Inr [(''success'', PBool False), (''message'', PStr (msg_review_error @ m)),
             (''review'', PNone)]"
    if "review_mechanism topic draft = Raises (PyException m)"
    using that by (simp add: review_research_idea_def except_Exception_def)
  have r': "review_research_idea review_mechanism topic draft =
        Inr [(''success'', PBool (truthy v)),
             (''message'', PStr (if truthy v then msg_review_done else msg_review_failed)),
             (''review'', if truthy v then v else PNone)]"
    if "review_mechanism topic draft = Returns v"
    using that by (simp add: review_research_idea_def)
  have c: "compress_paper_content paper_compression title abstract content =
        Inr [(''success'', PBool False), (''message'', PStr (msg_compress_error @ m)),
             (''compressed_content'', PNone)]"
    if "paper_compression title abstract content = Raises (PyException m)"
    using that by (simp add: compress_paper_content_def except_Exception_def)
  have c': "compress_paper_content paper_compression title abstract content =
        Inr [(''success'', PBool (truthy v)),
             (''message'', PStr (if truthy v then msg_compress_done else msg_compress_failed)),
             (''compressed_content'', if truthy v then v else PNone)]"
    if "paper_compression title abstract content = Returns v"
    using that by (simp add: compress_paper_content_def)
  show ?thesis
    using search_papers_total [of search_paper keyword limit]
      search_papers_success [of search_paper keyword limit ps]
      extract_keywords_total [of extract_technical_entities "text" split_section]
      review_research_idea_total [of review_mechanism topic draft]
      compress_paper_content_total [of paper_compression title abstract content]
      s s' e e' e'' r r' c c'
    by (intro conjI impI) (simp_all (no_asm_simp))
qed


theorem sync_tools_absorb_exceptions_witness:
  "search_papers failing_search ''black hole'' 5 =
     Inr [(''success'', PBool False),
          (''message'', PStr (msg_search_error @ ''connection refused'')),
          (''papers'', PList [])] \<and>
   search_papers empty_search ''black hole'' 0 =
     Inr [(''success'', PBool False),
          (''message'', PStr msg_no_papers),
          (''papers'', PList [])] \<and>
   compress_paper_content echo_compression ''T'' [] [] =
     Inr [(''success'', PBool True),
          (''message'', PStr msg_compress_done),
          (''compressed_content'', PStr ''T'')] \<and>
   compress_paper_content echo_compression [] [] [] =
     Inr [(''success'', PBool False),
          (''message'', PStr msg_compress_failed),
          (''compressed_content'', PNone)] \<and>
   search_papers one_paper_search ''black hole'' 5 =
     Inr [(''success'', PBool True),
          (''message'', PStr (msg_papers_found_pre @ ''1'' @ msg_papers_found_post)),
          (''papers'', PList [PDict
             [(''title'', PStr ''Hawking radiation''),
              (''authors'', PList []),
              (''abstract'', PStr []),
              (''published'', PStr []),
              (''url'', PStr ''u''),
              (''pdf_url'', PStr [])]])]"
proof -
  have 5: "search_papers one_paper_search ''black hole'' 5 =
     Inr [(''success'', PBool True),
          (''message'', PStr (msg_papers_found_pre @ ''1'' @ msg_papers_found_post)),
          (''papers'', PList [PDict
             [(''title'', PStr ''Hawking radiation''),
              (''authors'', PList []),
              (''abstract'', PStr []),
              (''published'', PStr []),
              (''url'', PStr ''u''),
              (''pdf_url'', PStr [])]])]"
    by (simp add: search_papers_def one_paper_search_def str_nat_digit digit_char_def)
  have 1: "failing_search ''black hole'' 5 = Raises (PyException ''connection refused'')"
    by (simp add: failing_search_def)
  have 2: "empty_search ''black hole'' 0 = Returns (PList []) \<and> \<not> truthy (PList [])"
    by (simp add: empty_search_def)
  have 3: "echo_compression ''T'' [] [] = Returns (PStr ''T'') \<and> truthy (PStr ''T'')"
    by (simp add: echo_compression_def)
  have 4: "echo_compression [] [] [] = Returns (PStr []) \<and> \<not> truthy (PStr [])"
    by (simp add: echo_compression_def)
  have a: "search_papers failing_search ''black hole'' 5 =
     Inr [(''success'', PBool False),
          (''message'', PStr (msg_search_error @ ''connection refused'')),
          (''papers'', PList [])]"
    by (rule sync_tools_absorb_exceptions
          [where search_paper = failing_search, THEN conjunct2, THEN conjunct1, THEN mp])
       (rule 1)
  have b: "search_papers empty_search ''black hole'' 0 =
     Inr [(''success'', PBool False),
          (''message'', PStr msg_no_papers),
          (''papers'', PList [])]"
    by (rule sync_tools_absorb_exceptions
          [where search_paper = empty_search, THEN conjunct2, THEN conjunct2, THEN conjunct1,
           THEN mp])
       (rule 2)
  have c: "compress_paper_content echo_compression ''T'' [] [] =
     Inr [(''success'', PBool True),
          (''message'', PStr msg_compress_done),
          (''compressed_content'', PStr ''T'')]"
    by (rule sync_tools_absorb_exceptions
          [where paper_compression = echo_compression,
           THEN conjunct2, THEN conjunct2, THEN conjunct2, THEN conjunct2, THEN conjunct2,
           THEN conjunct2, THEN conjunct2, THEN conjunct2, THEN conjunct2, THEN conjunct2,
           THEN conjunct2, THEN conjunct2, THEN conjunct2, THEN conjunct2, THEN conjunct2,
           THEN mp])
       (rule 3)
  have d: "compress_paper_content echo_compression [] [] [] =
     Inr [(''success'', PBool False),
          (''message'', PStr msg_compress_failed),
          (''compressed_content'', PNone)]"
    by (rule sync_tools_absorb_exceptions
          [where paper_compression = echo_compression,
           THEN conjunct2, THEN conjunct2, THEN conjunct2, THEN conjunct2, THEN conjunct2,
           THEN conjunct2, THEN conjunct2, THEN conjunct2, THEN conjunct2, THEN conjunct2,
           THEN conjunct2, THEN conjunct2, THEN conjunct2, THEN conjunct2,
           THEN conjunct1, THEN mp])
       (rule 4)
  from a b c d 5 show ?thesis by simp
qed


section \<open>Result and error follow the status\<close>

lemma result_error_step:
  assumes "all_records (\<lambda>t. (result t \<noteq> PNone \<longrightarrow> status t = ''completed'') \<and>
                            (error t \<noteq> None \<longrightarrow> status t = ''failed'')) (task_manager s)"
  shows "all_records (\<lambda>t. (result t \<noteq> PNone \<longrightarrow> status t = ''completed'') \<and>
                          (error t \<noteq> None \<longrightarrow> status t = ''failed''))
           (task_manager (step s e))"
proof (cases e)
  case (Call_generate_research_idea keyword paper_count ts c u loop_running)
  then show ?thesis
    using assms by (simp add: generate_research_idea_def Let_def all_records_create)
next
  case (Start_unit i now)
  then show ?thesis
    using assms by (simp add: unit_start_def Let_def all_records_update)
next
  case (Finish_unit i out now)
  show ?thesis
  proof (cases out)
    case (Returns r)
    with Finish_unit assms show ?thesis
      by (simp add: unit_finish_def Let_def all_records_update)
  next
    case (Raises x)
    with Finish_unit assms show ?thesis
      by (cases x) (simp_all add: unit_finish_def Let_def all_records_update)
  qed
qed

lemma result_error_foldl:
  assumes "all_records (\<lambda>t. (result t \<noteq> PNone \<longrightarrow> status t = ''completed'') \<and>
                            (error t \<noteq> None \<longrightarrow> status t = ''failed'')) (task_manager s)"
  shows "all_records (\<lambda>t. (result t \<noteq> PNone \<longrightarrow> status t = ''completed'') \<and>
                          (error t \<noteq> None \<longrightarrow> status t = ''failed''))
           (task_manager (foldl step s es))"
  using assms
proof (induction es arbitrary: s)
  case Nil
  then show ?case by simp
next
  case (Cons e es)
  from Cons.IH [OF result_error_step [OF Cons.prems]] show ?case by simp
qed

text \<open>
  C8. In every state that the server reaches through calls of \<^verbatim>\<open>generate_research_idea\<close>
  and steps of its background units, in any order, every stored record has a result
  other than \<^verbatim>\<open>None\<close> only when its status is completed, and an error other than \<^verbatim>\<open>None\<close>
  only when its status is failed.
\<close>

theorem result_and_error_follow_status:
  assumes "get_task (task_manager (run_server es)) tid = Some t"
  shows "(result t \<noteq> PNone \<longrightarrow> status t = ''completed'') \<and>
         (error t \<noteq> None \<longrightarrow> status t = ''failed'')"
proof -
  have "all_records (\<lambda>t. (result t \<noteq> PNone \<longrightarrow> status t = ''completed'') \<and>
                          (error t \<noteq> None \<longrightarrow> status t = ''failed''))
          (task_manager (run_server es))"
    unfolding run_server_def
    by (rule result_error_foldl) (simp add: init_server_def all_records_empty)
  from get_task_all_records [OF this assms] show ?thesis .
qed

lemmas server_eval_simps =
  run_server_def init_server_def generate_research_idea_def unit_start_def unit_finish_def

theorem result_and_error_follow_status_witness:
  "get_task (task_manager (run_server
       [Call_generate_research_idea ''dark matter'' 3 7 ''a'' ''b'' True,
        Call_generate_research_idea ''black hole'' 3 7 ''c'' ''d'' True,
        Start_unit 1 ''e'',
        Start_unit 0 ''f'',
        Finish_unit 0 (Returns (PStr ''idea'')) ''g'',
        Finish_unit 1 (Raises (PyException ''boom'')) ''h''])) ''task_2_7'' =
     Some \<lparr>id = ''task_2_7'', type = ''generate_research_idea'', status = ''failed'',
           params = [(''keyword'', PStr ''black hole''), (''paper_count'', PInt 3)],
           created_at = ''c'', updated_at = ''h'', result = PNone,
           error = Some (msg_idea_error @ ''boom''), progress = 0\<rparr> \<and>
   status \<lparr>id = ''task_2_7'', type = ''generate_research_idea'', status = ''failed'',
           params = [(''keyword'', PStr ''black hole''), (''paper_count'', PInt 3)],
           created_at = ''c'', updated_at = ''h'', result = PNone,
           error = Some (msg_idea_error @ ''boom''), progress = 0\<rparr> = ''failed''"
proof -
  have h: "get_task (task_manager (run_server
       [Call_generate_research_idea ''dark matter'' 3 7 ''a'' ''b'' True,
        Call_generate_research_idea ''black hole'' 3 7 ''c'' ''d'' True,
        Start_unit 1 ''e'',
        Start_unit 0 ''f'',
        Finish_unit 0 (Returns (PStr ''idea'')) ''g'',
        Finish_unit 1 (Raises (PyException ''boom'')) ''h''])) ''task_2_7'' =
     Some \<lparr>id = ''task_2_7'', type = ''generate_research_idea'', status = ''failed'',
           params = [(''keyword'', PStr ''black hole''), (''paper_count'', PInt 3)],
           created_at = ''c'', updated_at = ''h'', result = PNone,
           error = Some (msg_idea_error @ ''boom''), progress = 0\<rparr>"
    by (simp add: server_eval_simps eval_simps)
  from result_and_error_follow_status [OF h] h show ?thesis by simp
qed


section \<open>The server's invariant\<close>

lemma map_of_list_update:
  "distinct (map fst us) \<Longrightarrow> i < length us \<Longrightarrow> fst (us ! i) = k \<Longrightarrow>
     map_of (us[i := (k, v)]) = (map_of us)(k \<mapsto> v)"
proof (induction us arbitrary: i)
  case Nil
  then show ?case by simp
next
  case (Cons u us)
  show ?case
  proof (cases i)
    case 0
    with Cons.prems show ?thesis by (cases u) auto
  next
    case (Suc j)
    with Cons.prems have j: "j < length us" and kj: "fst (us ! j) = k" by simp_all
    from j have "fst (us ! j) \<in> set (map fst us)" by (simp add: nth_mem)
    moreover from Cons.prems have "fst u \<notin> set (map fst us)" by simp
    ultimately have "fst u \<noteq> k" using kj by metis
    with Suc Cons show ?thesis by (cases u) (auto simp: fun_upd_twist)
  qed
qed

lemma map_fst_list_update:
  "i < length us \<Longrightarrow> fst (us ! i) = k \<Longrightarrow> map fst (us[i := (k, v)]) = map fst us"
  by (simp add: map_update list_update_same_conv)

lemma map_of_nth:
  "distinct (map fst us) \<Longrightarrow> i < length us \<Longrightarrow> map_of us (fst (us ! i)) = Some (snd (us ! i))"
  by (simp add: map_of_eq_Some_iff)

lemma server_inv_init: "server_inv init_server"
  by (simp add: server_inv_def init_server_def good_keys_empty get_task_def)


lemma server_invI:
  assumes "good_keys (task_manager s)" and "distinct (map fst (background s))"
    and "\<And>k ph. map_of (background s) k = Some ph \<Longrightarrow>
           \<exists>t. get_task (task_manager s) k = Some t \<and> unit_status_ok ph (status t)"
    and "\<And>k t. get_task (task_manager s) k = Some t \<Longrightarrow> map_of (background s) k = None \<Longrightarrow>
           status t = ''pending''"
  shows "server_inv s"
  using assms unfolding server_inv_def by blast

lemma server_inv_keys: "server_inv s \<Longrightarrow> good_keys (task_manager s)"
  and server_inv_distinct: "server_inv s \<Longrightarrow> distinct (map fst (background s))"
  and server_inv_unit:
    "server_inv s \<Longrightarrow> map_of (background s) k = Some ph \<Longrightarrow>
       \<exists>t. get_task (task_manager s) k = Some t \<and> unit_status_ok ph (status t)"
  and server_inv_no_unit:
    "server_inv s \<Longrightarrow> get_task (task_manager s) k = Some t \<Longrightarrow>
       map_of (background s) k = None \<Longrightarrow> status t = ''pending''"
  unfolding server_inv_def by blast+

lemma generate_fresh:
  assumes "server_inv s"
  shows "get_task (task_manager s) (fst (create_task (task_manager s) ty ps ts c u)) = None"
    and "map_of (background s) (fst (create_task (task_manager s) ty ps ts c u)) = None"
proof -
  let ?new = "fst (create_task (task_manager s) ty ps ts c u)"
  have "?new \<notin> fst ` set (task_manager s)"
    using server_inv_keys [OF assms] by (rule create_task_fresh)
  then show none: "get_task (task_manager s) ?new = None"
    by (simp add: get_task_def map_of_None_iff)
  show "map_of (background s) ?new = None"
  proof (cases "map_of (background s) ?new")
    case None
    then show ?thesis .
  next
    case (Some ph)
    from server_inv_unit [OF assms Some] none show ?thesis by simp
  qed
qed

lemma inv_generate:
  assumes "server_inv s"
  shows "server_inv (snd (generate_research_idea s keyword paper_count ts c u loop_running))"
proof -
  let ?ps = "[(''keyword'', PStr keyword), (''paper_count'', PInt paper_count)]"
  let ?cr = "create_task (task_manager s) ''generate_research_idea'' ?ps ts c u"
  let ?new = "fst ?cr"
  note fresh = generate_fresh [OF assms, of "''generate_research_idea''" ?ps ts c u]
  have other: "get_task (snd ?cr) k = get_task (task_manager s) k" if "k \<noteq> ?new" for k
    using that by (rule get_task_create_other)
  have new: "\<exists>t. get_task (snd ?cr) ?new = Some t \<and> status t = ''pending''"
    by (simp add: get_task_create_new)
  have gk: "good_keys (snd ?cr)" using server_inv_keys [OF assms] by (rule good_keys_create)
  show ?thesis
  proof (cases loop_running)
    case False
    have "server_inv (s\<lparr>task_manager := snd ?cr\<rparr>)"
    proof (rule server_invI)
      show "good_keys (task_manager (s\<lparr>task_manager := snd ?cr\<rparr>))" using gk by simp
      show "distinct (map fst (background (s\<lparr>task_manager := snd ?cr\<rparr>)))"
        using server_inv_distinct [OF assms] by simp
    next
      fix k ph
      assume "map_of (background (s\<lparr>task_manager := snd ?cr\<rparr>)) k = Some ph"
      then have u: "map_of (background s) k = Some ph" by simp
      with fresh(2) have "k \<noteq> ?new" by auto
      with server_inv_unit [OF assms u] other
      show "\<exists>t. get_task (task_manager (s\<lparr>task_manager := snd ?cr\<rparr>)) k = Some t \<and>
                unit_status_ok ph (status t)" by simp
    next
      fix k t
      assume g: "get_task (task_manager (s\<lparr>task_manager := snd ?cr\<rparr>)) k = Some t"
        and n: "map_of (background (s\<lparr>task_manager := snd ?cr\<rparr>)) k = None"
      show "status t = ''pending''"
      proof (cases "k = ?new")
        case True
        with g new show ?thesis by auto
      next
        case False
        with g other have "get_task (task_manager s) k = Some t" by simp
        with n server_inv_no_unit [OF assms] show ?thesis by simp
      qed
    qed
    with False show ?thesis by (simp add: generate_research_idea_def Let_def)
  next
    case True
    let ?s' = "s\<lparr>task_manager := snd ?cr, background := background s @ [(?new, Scheduled)]\<rparr>"
    have m: "map_of (background ?s') k =
               (case map_of (background s) k of
                  Some ph \<Rightarrow> Some ph
                | None \<Rightarrow> if k = ?new then Some Scheduled else None)" for k
      by (simp add: map_add_def split: option.splits)
    have "server_inv ?s'"
    proof (rule server_invI)
      show "good_keys (task_manager ?s')" using gk by simp
      from fresh(2) have "?new \<notin> fst ` set (background s)"
        by (simp add: map_of_None_iff)
      then show "distinct (map fst (background ?s'))"
        using server_inv_distinct [OF assms] by simp
    next
      fix k ph
      assume u': "map_of (background ?s') k = Some ph"
      show "\<exists>t. get_task (task_manager ?s') k = Some t \<and> unit_status_ok ph (status t)"
      proof (cases "map_of (background s) k")
        case None
        with u' m [of k] have "k = ?new" "ph = Scheduled" by (auto split: if_splits)
        with new show ?thesis by simp
      next
        case (Some ph')
        with u' m [of k] have u: "map_of (background s) k = Some ph" by simp
        with fresh(2) have "k \<noteq> ?new" by auto
        with server_inv_unit [OF assms u] other show ?thesis by simp
      qed
    next
      fix k t
      assume g: "get_task (task_manager ?s') k = Some t"
        and n: "map_of (background ?s') k = None"
      from n m [of k] have "k \<noteq> ?new" and n': "map_of (background s) k = None"
        by (auto split: option.splits if_splits)
      with g other have "get_task (task_manager s) k = Some t" by simp
      with n' server_inv_no_unit [OF assms] show "status t = ''pending''" by simp
    qed
    with True show ?thesis by (simp add: generate_research_idea_def Let_def)
  qed
qed

lemma status_generate:
  assumes "server_inv s"
  shows "status_step (status_of s k)
           (status_of (snd (generate_research_idea s keyword paper_count ts c u loop_running)) k)"
proof -
  let ?ps = "[(''keyword'', PStr keyword), (''paper_count'', PInt paper_count)]"
  let ?cr = "create_task (task_manager s) ''generate_research_idea'' ?ps ts c u"
  note fresh = generate_fresh [OF assms, of "''generate_research_idea''" ?ps ts c u]
  have t: "task_manager (snd (generate_research_idea s keyword paper_count ts c u loop_running))
             = snd ?cr"
    by (simp add: generate_research_idea_def Let_def)
  show ?thesis
  proof (cases "k = fst ?cr")
    case True
    with fresh(1) show ?thesis
      unfolding status_of_def t by (simp add: get_task_create_new status_step_def)
  next
    case False
    then show ?thesis
      unfolding status_of_def t by (simp add: get_task_create_other status_step_def)
  qed
qed


lemma inv_unit_update:
  assumes inv: "server_inv s" and i: "i < length (background s)"
    and ok: "\<And>t. get_task (task_manager s) (fst (background s ! i)) = Some t \<Longrightarrow>
               unit_status_ok (snd (background s ! i)) (status t) \<Longrightarrow> unit_status_ok ph1 st"
  shows "server_inv
           (s\<lparr>task_manager := update_task (task_manager s) (fst (background s ! i)) st res err now,
              background := (background s)[i := (fst (background s ! i), ph1)]\<rparr>)"
    (is "server_inv ?s'")
proof -
  let ?tid = "fst (background s ! i)"
  have d: "distinct (map fst (background s))" using inv by (rule server_inv_distinct)
  have u0: "map_of (background s) ?tid = Some (snd (background s ! i))"
    using d i by (rule map_of_nth)
  from server_inv_unit [OF inv u0] obtain t0 where
    t0: "get_task (task_manager s) ?tid = Some t0"
    and s0: "unit_status_ok (snd (background s ! i)) (status t0)" by blast
  have m: "map_of (background ?s') = (map_of (background s))(?tid \<mapsto> ph1)"
    using d i by (simp add: map_of_list_update)
  show ?thesis
  proof (rule server_invI)
    show "good_keys (task_manager ?s')"
      using server_inv_keys [OF inv] by (simp add: good_keys_update)
    show "distinct (map fst (background ?s'))"
      using d i by (simp add: map_fst_list_update)
  next
    fix k ph
    assume u': "map_of (background ?s') k = Some ph"
    show "\<exists>t. get_task (task_manager ?s') k = Some t \<and> unit_status_ok ph (status t)"
    proof (cases "k = ?tid")
      case True
      with u' m have "ph = ph1" by simp
      with True ok [OF t0 s0] get_task_update_same [OF t0, of st res err now]
      show ?thesis by simp
    next
      case False
      with u' m have "map_of (background s) k = Some ph" by simp
      from server_inv_unit [OF inv this] False show ?thesis
        by (simp add: get_task_update_other)
    qed
  next
    fix k t
    assume g: "get_task (task_manager ?s') k = Some t"
      and n: "map_of (background ?s') k = None"
    from n m have k: "k \<noteq> ?tid" and n': "map_of (background s) k = None"
      by (auto split: if_splits)
    from g k have "get_task (task_manager s) k = Some t" by (simp add: get_task_update_other)
    with n' server_inv_no_unit [OF inv] show "status t = ''pending''" by simp
  qed
qed

lemma inv_unit_skip:
  assumes inv: "server_inv s" and i: "i < length (background s)"
    and ok: "\<And>st. unit_status_ok (snd (background s ! i)) st \<Longrightarrow> unit_status_ok ph1 st"
  shows "server_inv (s\<lparr>background := (background s)[i := (fst (background s ! i), ph1)]\<rparr>)"
    (is "server_inv ?s'")
proof -
  let ?tid = "fst (background s ! i)"
  have d: "distinct (map fst (background s))" using inv by (rule server_inv_distinct)
  have u0: "map_of (background s) ?tid = Some (snd (background s ! i))"
    using d i by (rule map_of_nth)
  have m: "map_of (background ?s') = (map_of (background s))(?tid \<mapsto> ph1)"
    using d i by (simp add: map_of_list_update)
  show ?thesis
  proof (rule server_invI)
    show "good_keys (task_manager ?s')" using server_inv_keys [OF inv] by simp
    show "distinct (map fst (background ?s'))"
      using d i by (simp add: map_fst_list_update)
  next
    fix k ph
    assume u': "map_of (background ?s') k = Some ph"
    show "\<exists>t. get_task (task_manager ?s') k = Some t \<and> unit_status_ok ph (status t)"
    proof (cases "k = ?tid")
      case True
      with u' m have "ph = ph1" by simp
      with True ok server_inv_unit [OF inv u0] show ?thesis by auto
    next
      case False
      with u' m have "map_of (background s) k = Some ph" by simp
      from server_inv_unit [OF inv this] show ?thesis by simp
    qed
  next
    fix k t
    assume g: "get_task (task_manager ?s') k = Some t"
      and n: "map_of (background ?s') k = None"
    from n m have n': "map_of (background s) k = None" by (auto split: if_splits)
    with g server_inv_no_unit [OF inv] show "status t = ''pending''" by simp
  qed
qed

lemma unit_start_disabled:
  "\<not> (i < length (background s) \<and> snd (background s ! i) = Scheduled) \<Longrightarrow>
     unit_start s i now = s"
  unfolding unit_start_def by (rule if_not_P)

lemma unit_finish_disabled:
  "\<not> (i < length (background s) \<and> snd (background s ! i) = Awaiting) \<Longrightarrow>
     unit_finish s i out now = s"
  unfolding unit_finish_def by (rule if_not_P)

lemma inv_step:
  assumes "server_inv s"
  shows "server_inv (step s e)"
proof (cases e)
  case (Call_generate_research_idea keyword paper_count ts c u loop_running)
  with assms show ?thesis by (simp add: inv_generate)
next
  case (Start_unit i now)
  show ?thesis
  proof (cases "i < length (background s) \<and> snd (background s ! i) = Scheduled")
    case False
    then have "unit_start s i now = s" by (rule unit_start_disabled)
    with Start_unit assms show ?thesis by simp
  next
    case True
    then have "server_inv
       (s\<lparr>task_manager := update_task (task_manager s) (fst (background s ! i)) ''running''
            PNone None now,
          background := (background s)[i := (fst (background s ! i), Awaiting)]\<rparr>)"
      using assms by (intro inv_unit_update) simp_all
    with True Start_unit show ?thesis by (simp add: unit_start_def Let_def)
  qed
next
  case (Finish_unit i out now)
  show ?thesis
  proof (cases "i < length (background s) \<and> snd (background s ! i) = Awaiting")
    case False
    then have "unit_finish s i out now = s" by (rule unit_finish_disabled)
    with Finish_unit assms show ?thesis by simp
  next
    case True
    show ?thesis
    proof (cases out)
      case (Returns r)
      from True have "server_inv
         (s\<lparr>task_manager := update_task (task_manager s) (fst (background s ! i)) ''completed''
              r None now,
            background := (background s)[i := (fst (background s ! i), Finished)]\<rparr>)"
        using assms by (intro inv_unit_update) simp_all
      with True Finish_unit Returns show ?thesis by (simp add: unit_finish_def Let_def)
    next
      case (Raises x)
      show ?thesis
      proof (cases x)
        case (PyException m)
        from True have "server_inv
           (s\<lparr>task_manager := update_task (task_manager s) (fst (background s ! i)) ''failed''
                PNone (Some (msg_idea_error @ m)) now,
              background := (background s)[i := (fst (background s ! i), Finished)]\<rparr>)"
          using assms by (intro inv_unit_update) simp_all
        with True Finish_unit Raises PyException show ?thesis
          by (simp add: unit_finish_def Let_def)
      next
        case (PyBaseException c)
        from True have "server_inv
           (s\<lparr>background := (background s)[i := (fst (background s ! i), Finished)]\<rparr>)"
          using assms by (intro inv_unit_skip) simp_all
        with True Finish_unit Raises PyBaseException show ?thesis
          by (simp add: unit_finish_def Let_def)
      qed
    qed
  qed
qed

lemma status_unit_update:
  assumes inv: "server_inv s" and i: "i < length (background s)"
    and ph: "snd (background s ! i) = ph0"
    and mv: "\<And>st0. unit_status_ok ph0 st0 \<Longrightarrow> status_step (Some st0) (Some st)"
  shows "status_step (status_of s k)
           (map_option status
              (get_task (update_task (task_manager s) (fst (background s ! i)) st res err now) k))"
proof (cases "k = fst (background s ! i)")
  case False
  then show ?thesis
    by (simp add: status_of_def get_task_update_other status_step_def)
next
  case True
  have "map_of (background s) (fst (background s ! i)) = Some ph0"
    using server_inv_distinct [OF inv] i ph map_of_nth by fastforce
  from server_inv_unit [OF inv this] obtain t0 where
    t0: "get_task (task_manager s) (fst (background s ! i)) = Some t0"
    and s0: "unit_status_ok ph0 (status t0)" by blast
  from mv [OF s0] True t0 get_task_update_same [OF t0, of st res err now]
  show ?thesis by (simp add: status_of_def)
qed

lemma status_step_server:
  assumes "server_inv s"
  shows "status_step (status_of s k) (status_of (step s e) k)"
proof (cases e)
  case (Call_generate_research_idea keyword paper_count ts c u loop_running)
  with assms show ?thesis by (simp add: status_generate)
next
  case (Start_unit i now)
  show ?thesis
  proof (cases "i < length (background s) \<and> snd (background s ! i) = Scheduled")
    case False
    then have "unit_start s i now = s" by (rule unit_start_disabled)
    with Start_unit show ?thesis by (simp add: status_step_def)
  next
    case True
    then have "status_step (status_of s k)
       (map_option status (get_task (update_task (task_manager s) (fst (background s ! i))
          ''running'' PNone None now) k))"
      using assms by (intro status_unit_update [where ?ph0.0 = Scheduled])
        (simp_all add: status_step_def)
    with True Start_unit show ?thesis by (simp add: unit_start_def Let_def status_of_def)
  qed
next
  case (Finish_unit i out now)
  show ?thesis
  proof (cases "i < length (background s) \<and> snd (background s ! i) = Awaiting")
    case False
    then have "unit_finish s i out now = s" by (rule unit_finish_disabled)
    with Finish_unit show ?thesis by (simp add: status_step_def)
  next
    case True
    show ?thesis
    proof (cases out)
      case (Returns r)
      from True have "status_step (status_of s k)
         (map_option status (get_task (update_task (task_manager s) (fst (background s ! i))
            ''completed'' r None now) k))"
        using assms by (intro status_unit_update [where ?ph0.0 = Awaiting])
          (simp_all add: status_step_def)
      with True Finish_unit Returns show ?thesis
        by (simp add: unit_finish_def Let_def status_of_def)
    next
      case (Raises x)
      show ?thesis
      proof (cases x)
        case (PyException m)
        from True have "status_step (status_of s k)
           (map_option status (get_task (update_task (task_manager s) (fst (background s ! i))
              ''failed'' PNone (Some (msg_idea_error @ m)) now) k))"
          using assms by (intro status_unit_update [where ?ph0.0 = Awaiting])
            (simp_all add: status_step_def)
        with True Finish_unit Raises PyException show ?thesis
          by (simp add: unit_finish_def Let_def status_of_def)
      next
        case (PyBaseException c)
        with True Finish_unit Raises show ?thesis
          by (simp add: unit_finish_def Let_def status_of_def status_step_def)
      qed
    qed
  qed
qed


section \<open>Status histories of the server\<close>

lemma trace_snoc: "trace f s (es @ [e]) = trace f s es @ [f (foldl f s es) e]"
  by (induction es arbitrary: s) auto

lemma remdups_adj_snoc:
  "remdups_adj (xs @ [x]) =
     (if xs \<noteq> [] \<and> last xs = x then remdups_adj xs else remdups_adj xs @ [x])"
proof (cases xs rule: rev_cases)
  case Nil
  then show ?thesis by simp
next
  case (snoc ys y)
  then show ?thesis by (simp add: remdups_adj_append_two)
qed

lemma hist_ok_last:
  assumes "hist_ok (Some st0) (remdups_adj xs)"
  shows "xs \<noteq> [] \<and> last xs = st0"
proof -
  have "h \<noteq> [] \<and> last h = st0" if "hist_ok (Some st0) h" for h
    using that by (auto simp: hist_ok_def)
  from this [OF assms] show ?thesis by simp
qed

lemma hist_step:
  assumes "hist_ok a (remdups_adj xs)" and "status_step a b"
  shows "hist_ok b (remdups_adj (xs @ (case b of None \<Rightarrow> [] | Some st \<Rightarrow> [st])))"
proof (cases b)
  case None
  with assms show ?thesis by (auto simp: status_step_def)
next
  case b: (Some st)
  show ?thesis
  proof (cases a)
    case None
    with assms b have "xs = []" and "st = ''pending''"
      by (auto simp: hist_ok_def status_step_def)
    with b show ?thesis by (simp add: hist_ok_def)
  next
    case (Some st0)
    with assms(1) have l: "xs \<noteq> [] \<and> last xs = st0" using hist_ok_last by blast
    show ?thesis
    proof (cases "st = st0")
      case True
      with assms(1) Some b l show ?thesis by (simp add: remdups_adj_snoc)
    next
      case False
      with l b have "remdups_adj (xs @ (case b of None \<Rightarrow> [] | Some st \<Rightarrow> [st]))
                       = remdups_adj xs @ [st]"
        by (auto simp: remdups_adj_snoc)
      moreover from assms Some b False
      have "hist_ok (Some st) (remdups_adj xs @ [st])"
        by (auto simp: hist_ok_def status_step_def)
      ultimately show ?thesis using b by simp
    qed
  qed
qed

lemma status_history_snoc:
  "status_history k (regs @ [r]) =
     remdups_adj (concat (map (\<lambda>r. case get_task r k of None \<Rightarrow> [] | Some t \<Rightarrow> [status t]) regs)
       @ (case map_option status (get_task r k) of None \<Rightarrow> [] | Some st \<Rightarrow> [st]))"
  by (simp add: status_history_def split: option.splits)

lemma server_history:
  "server_inv (foldl step init_server es) \<and>
   hist_ok (status_of (foldl step init_server es) k)
     (status_history k (map task_manager (trace step init_server es)))"
proof (induction es rule: rev_induct)
  case Nil
  show ?case
    using server_inv_init
    by (simp add: status_of_def status_history_def hist_ok_def init_server_def get_task_def)
next
  case (snoc e es)
  let ?s = "foldl step init_server es"
  from snoc have inv: "server_inv ?s"
    and h: "hist_ok (status_of ?s k)
              (status_history k (map task_manager (trace step init_server es)))" by simp_all
  have "hist_ok (status_of (step ?s e) k)
          (status_history k (map task_manager (trace step init_server es)
             @ [task_manager (step ?s e)]))"
    unfolding status_history_snoc
    using hist_step [OF h [unfolded status_history_def] status_step_server [OF inv, of k e]]
    by (simp add: status_of_def)
  with inv_step [OF inv, of e] show ?case by (simp add: trace_snoc)
qed

text \<open>
  C2, as stated, fails: \<^verbatim>\<open>update_task\<close> writes the status it is given and never reads the
  current one. The TaskManager operations create, update to completed, update to running
  take the task through pending, completed, running.
\<close>

theorem update_task_leaves_terminal_status:
  "status_history ''task_1_7''
     (trace tm_step []
        [Create_task ''generate_research_idea'' [] 7 ''a'' ''b'',
         Update_task ''task_1_7'' ''completed'' (PStr ''idea'') None ''c'',
         Update_task ''task_1_7'' ''running'' PNone None ''d''])
     = [''pending'', ''completed'', ''running''] \<and>
   \<not> lifecycle_ok (status_history ''task_1_7''
     (trace tm_step []
        [Create_task ''generate_research_idea'' [] 7 ''a'' ''b'',
         Update_task ''task_1_7'' ''completed'' (PStr ''idea'') None ''c'',
         Update_task ''task_1_7'' ''running'' PNone None ''d'']))"
  by (simp add: status_history_def lifecycle_ok_def eval_simps)

text \<open>
  C2, amended. Along every run of the server (calls of \<^verbatim>\<open>generate_research_idea\<close> and
  steps of the background units, in any order), the status values that the record of a
  task id takes form a prefix of pending, running, completed or of pending, running,
  failed; and a record whose status is completed or failed keeps that status in the next
  step, whatever the step. This is a property of how the dispatcher calls
  \<^verbatim>\<open>update_task\<close>, not of \<^verbatim>\<open>update_task\<close> itself.
\<close>

theorem dispatcher_lifecycle:
  "lifecycle_ok (status_history tid (map task_manager (trace step init_server es))) \<and>
   (get_task (task_manager (run_server es)) tid = Some t \<and>
    (status t = ''completed'' \<or> status t = ''failed'') \<longrightarrow>
      map_option status (get_task (task_manager (step (run_server es) e)) tid)
        = Some (status t))"
proof -
  from server_history [of es tid]
  have inv: "server_inv (run_server es)"
    and h: "hist_ok (status_of (run_server es) tid)
              (status_history tid (map task_manager (trace step init_server es)))"
    by (simp_all add: run_server_def)
  from h have "lifecycle_ok (status_history tid (map task_manager (trace step init_server es)))"
    by (auto simp: hist_ok_def lifecycle_ok_def)
  moreover have "map_option status (get_task (task_manager (step (run_server es) e)) tid)
        = Some (status t)"
    if "get_task (task_manager (run_server es)) tid = Some t"
      and "status t = ''completed'' \<or> status t = ''failed''"
  proof -
    from status_step_server [OF inv, of tid e] that(1)
    have "status_step (Some (status t)) (status_of (step (run_server es) e) tid)"
      by (simp add: status_of_def)
    with that(2) have "status_of (step (run_server es) e) tid = Some (status t)"
      by (auto simp: status_step_def)
    then show ?thesis by (simp add: status_of_def)
  qed
  ultimately show ?thesis by blast
qed

theorem dispatcher_lifecycle_witness:
  "status_history ''task_1_7'' (map task_manager (trace step init_server
     [Call_generate_research_idea ''dark matter'' 3 7 ''a'' ''b'' True,
      Start_unit 0 ''c'',
      Finish_unit 0 (Returns (PStr ''idea'')) ''d'']))
     = [''pending'', ''running'', ''completed''] \<and>
   lifecycle_ok (status_history ''task_1_7'' (map task_manager (trace step init_server
     [Call_generate_research_idea ''dark matter'' 3 7 ''a'' ''b'' True,
      Start_unit 0 ''c'',
      Finish_unit 0 (Returns (PStr ''idea'')) ''d'']))) \<and>
   get_task (task_manager (run_server
     [Call_generate_research_idea ''dark matter'' 3 7 ''a'' ''b'' True,
      Start_unit 0 ''c'',
      Finish_unit 0 (Returns (PStr ''idea'')) ''d''])) ''task_1_7'' =
     Some \<lparr>id = ''task_1_7'', type = ''generate_research_idea'', status = ''completed'',
           params = [(''keyword'', PStr ''dark matter''), (''paper_count'', PInt 3)],
           created_at = ''a'', updated_at = ''d'', result = PStr ''idea'', error = None,
           progress = 100\<rparr> \<and>
   map_option status (get_task (task_manager (step (run_server
     [Call_generate_research_idea ''dark matter'' 3 7 ''a'' ''b'' True,
      Start_unit 0 ''c'',
      Finish_unit 0 (Returns (PStr ''idea'')) ''d''])
      (Finish_unit 0 (Raises (PyException ''late'')) ''e''))) ''task_1_7'')
     = Some ''completed''"
proof -
  have 1: "status_history ''task_1_7'' (map task_manager (trace step init_server
     [Call_generate_research_idea ''dark matter'' 3 7 ''a'' ''b'' True,
      Start_unit 0 ''c'',
      Finish_unit 0 (Returns (PStr ''idea'')) ''d'']))
     = [''pending'', ''running'', ''completed'']"
    by (simp add: status_history_def server_eval_simps eval_simps)
  have 2: "get_task (task_manager (run_server
     [Call_generate_research_idea ''dark matter'' 3 7 ''a'' ''b'' True,
      Start_unit 0 ''c'',
      Finish_unit 0 (Returns (PStr ''idea'')) ''d''])) ''task_1_7'' =
     Some \<lparr>id = ''task_1_7'', type = ''generate_research_idea'', status = ''completed'',
           params = [(''keyword'', PStr ''dark matter''), (''paper_count'', PInt 3)],
           created_at = ''a'', updated_at = ''d'', result = PStr ''idea'', error = None,
           progress = 100\<rparr>"
    by (simp add: server_eval_simps eval_simps)
  from 1 2 dispatcher_lifecycle
    [of "''task_1_7''"
        "[Call_generate_research_idea ''dark matter'' 3 7 ''a'' ''b'' True,
          Start_unit 0 ''c'',
          Finish_unit 0 (Returns (PStr ''idea'')) ''d'']"
        "\<lparr>id = ''task_1_7'', type = ''generate_research_idea'', status = ''completed'',
           params = [(''keyword'', PStr ''dark matter''), (''paper_count'', PInt 3)],
           created_at = ''a'', updated_at = ''d'', result = PStr ''idea'', error = None,
           progress = 100\<rparr>"
        "Finish_unit 0 (Raises (PyException ''late'')) ''e''"]
  show ?thesis by simp
qed

end
